theory Spec2Isabelle
  imports Main "HOL-Library.Sublist"
begin

section \<open>Go strings\<close>

text \<open>
  A Go string is a sequence of bytes, so it is a \<open>string\<close> (a list of \<open>char\<close>, one per
  byte); \<open>len(s)\<close> is \<open>length s\<close>, \<open>s[:i]\<close> is \<open>take i s\<close> and \<open>s[i:]\<close> is \<open>drop i s\<close>
  whenever \<open>0 \<le> i \<le> len(s)\<close> (outside that range Go panics, and every use below is
  either guarded by the source or modelled with an explicit panic).
  An \<open>error\<close> value is represented by its message.
\<close>

type_synonym error = string

text \<open>\<open>strings.Index(s, substr)\<close>: the index of the first instance of \<open>substr\<close> in
  \<open>s\<close>, or \<open>-1\<close> when there is none. \<open>Index_from\<close> carries the offset already scanned.\<close>

fun Index_from :: "string \<Rightarrow> string \<Rightarrow> nat \<Rightarrow> int" where
  "Index_from [] substr n = (if substr = [] then int n else - 1)"
| "Index_from (c # cs) substr n =
     (if prefix substr (c # cs) then int n else Index_from cs substr (Suc n))"

definition strings_Index :: "string \<Rightarrow> string \<Rightarrow> int" where
  "strings_Index s substr = Index_from s substr 0"

section \<open>util/builtin_operators.go: KeyMatch and KeyGet\<close>

text \<open>
  \<^verbatim>\<open>
  func KeyMatch(key1 string, key2 string) bool {
      i := strings.Index(key2, "*")
      if i == -1 { return key1 == key2 }
      if len(key1) > i { return key1[:i] == key2[:i] }
      return key1 == key2[:i]
  }\<close>
  Both slices are in range: \<open>i\<close> is an index into \<open>key2\<close>, and \<open>key1[:i]\<close> is taken only
  when \<open>len(key1) > i\<close>.
\<close>

definition KeyMatch :: "string \<Rightarrow> string \<Rightarrow> bool" where
  "KeyMatch key1 key2 =
     (let i = strings_Index key2 ''*'' in
      if i = - 1 then key1 = key2
      else if int (length key1) > i then take (nat i) key1 = take (nat i) key2
      else key1 = take (nat i) key2)"

text \<open>
  \<^verbatim>\<open>
  func KeyGet(key1, key2 string) string {
      i := strings.Index(key2, "*")
      if i == -1 { return "" }
      if len(key1) > i {
          if key1[:i] == key2[:i] { return key1[i:] }
      }
      return ""
  }\<close>
\<close>

definition KeyGet :: "string \<Rightarrow> string \<Rightarrow> string" where
  "KeyGet key1 key2 =
     (let i = strings_Index key2 ''*'' in
      if i = - 1 then ''''
      else if int (length key1) > i then
        (if take (nat i) key1 = take (nat i) key2 then drop (nat i) key1 else '''')
      else '''')"

text \<open>
  \<open>strings.Replace(s, old, new, -1)\<close>: every non-overlapping instance of \<open>old\<close> in \<open>s\<close>,
  scanning from the left, is replaced by \<open>new\<close>. The source only passes the non-empty
  \<open>old = "/*"\<close>; for an empty \<open>old\<close> (where Go inserts \<open>new\<close> around every rune) the model
  leaves \<open>s\<close> as it is.
\<close>

function strings_Replace :: "string \<Rightarrow> string \<Rightarrow> string \<Rightarrow> string" where
  "strings_Replace s old new =
     (if old = [] \<or> s = [] then s
      else if prefix old s then new @ strings_Replace (drop (length old) s) old new
      else hd s # strings_Replace (tl s) old new)"
  by pat_completeness auto
termination
  by (relation "measure (\<lambda>(s, old, new). length s)") auto

declare strings_Replace.simps [simp del]

section \<open>util/builtin_operators.go: KeyMatch3, KeyMatch5 and RegexMatch\<close>

text \<open>
  The regular expressions are Go's \<open>regexp\<close> package, which is not part of the repository.
  It enters as a parameter: \<open>MatchString lib pattern s\<close> is \<open>regexp.MatchString(pattern, s)\<close>
  (an error when the pattern does not compile), and \<open>ReplaceAllString lib re src repl\<close> is
  \<open>regexp.MustCompile(re).ReplaceAllString(src, repl)\<close>. The package-level patterns are
  kept by their source text; \<open>CHR 0x5C\<close> is the backslash.
\<close>

record regexp_lib =
  MatchString :: "string \<Rightarrow> string \<Rightarrow> error + bool"
  ReplaceAllString :: "string \<Rightarrow> string \<Rightarrow> string \<Rightarrow> string"

definition keyMatch3Re :: string where
  "keyMatch3Re = CHR 0x5C # ''{[^/]+'' @ [CHR 0x5C] @ ''}''"

definition keyMatch5Re :: string where
  "keyMatch5Re = CHR 0x5C # ''{[^/]+'' @ [CHR 0x5C] @ ''}''"

text \<open>
  \<^verbatim>\<open>
  func RegexMatch(key1 string, key2 string) bool {
      res, err := regexp.MatchString(key2, key1)
      if err != nil { panic(err) }
      return res
  }\<close>
  \<open>None\<close> is the panic.
\<close>

definition RegexMatch :: "regexp_lib \<Rightarrow> string \<Rightarrow> string \<Rightarrow> bool option" where
  "RegexMatch lib key1 key2 =
     (case MatchString lib key2 key1 of Inl err \<Rightarrow> None | Inr res \<Rightarrow> Some res)"

text \<open>
  \<^verbatim>\<open>
  func KeyMatch3(key1 string, key2 string) bool {
      key2 = strings.Replace(key2, "/*", "/.*", -1)
      key2 = keyMatch3Re.ReplaceAllString(key2, "$1[^/]+$2")
      return RegexMatch(key1, "^"+key2+"$")
  }\<close>
\<close>

definition KeyMatch3 :: "regexp_lib \<Rightarrow> string \<Rightarrow> string \<Rightarrow> bool option" where
  "KeyMatch3 lib key1 key2 =
     (let key2 = strings_Replace key2 ''/*'' ''/.*'';
          key2 = ReplaceAllString lib keyMatch3Re key2 ''$1[^/]+$2''
      in RegexMatch lib key1 (''^'' @ key2 @ ''$''))"

text \<open>
  \<^verbatim>\<open>
  func KeyMatch5(key1 string, key2 string) bool {
      i := strings.Index(key1, "?")
      if i != -1 { key1 = key1[:i] }
      key2 = strings.Replace(key2, "/*", "/.*", -1)
      key2 = keyMatch5Re.ReplaceAllString(key2, "$1[^/]+$2")
      return RegexMatch(key1, "^"+key2+"$")
  }\<close>
\<close>

definition KeyMatch5 :: "regexp_lib \<Rightarrow> string \<Rightarrow> string \<Rightarrow> bool option" where
  "KeyMatch5 lib key1 key2 =
     (let i = strings_Index key1 ''?'';
          key1 = (if i \<noteq> - 1 then take (nat i) key1 else key1);
          key2 = strings_Replace key2 ''/*'' ''/.*'';
          key2 = ReplaceAllString lib keyMatch5Re key2 ''$1[^/]+$2''
      in RegexMatch lib key1 (''^'' @ key2 @ ''$''))"

text \<open>The specification's wording for the first argument of \<open>keyMatch5\<close>: \<open>a\<close> truncated at
  its first \<open>?\<close>, and \<open>a\<close> itself when it contains none.\<close>

definition strip_query :: "string \<Rightarrow> string" where
  "strip_query a = takeWhile (\<lambda>c. c \<noteq> CHR ''?'') a"

section \<open>util/builtin_operators.go: the g functions\<close>

text \<open>
  The arguments of an expression function are \<open>interface{}\<close> values: a string, or a value
  of another dynamic type, on which the type assertion \<open>a.(string)\<close> panics. The role
  manager is the interface \<open>rbac.RoleManager\<close>; the closure only calls its \<open>HasLink\<close>, which
  enters as a function of the two names and the variadic domain, returning
  \<open>(bool, error)\<close>. A nil role manager is \<open>None\<close>.
\<close>

datatype arg = Str string | NonStr

type_synonym HasLink = "string \<Rightarrow> string \<Rightarrow> string list \<Rightarrow> bool \<times> error option"

fun as_strings :: "arg list \<Rightarrow> string list option" where
  "as_strings [] = Some []"
| "as_strings (Str s # as) = map_option ((#) s) (as_strings as)"
| "as_strings (NonStr # as) = None"

text \<open>
  The cache key: for each argument in turn, \<open>builder.WriteByte(0)\<close> and then
  \<open>builder.WriteString(arg.(string))\<close>.
\<close>

definition cache_key :: "string list \<Rightarrow> string" where
  "cache_key strs = concat (map (\<lambda>a. CHR 0x00 # a) strs)"

text \<open>
  The closure returned by \<open>GenerateGFunction(rm)\<close>, with the \<open>sync.Map\<close> it closes over
  passed in and returned. The result is \<open>None\<close> on a panic (a failed type assertion, or
  \<open>args[0]\<close>, \<open>args[1]\<close> out of range) and otherwise the returned pair
  \<open>(interface{}, error)\<close> with the map after the call.
  \<^verbatim>\<open>
      total := len(args)
      for _, a := range args { aStr := a.(string); total += len(aStr) }
      ... key := builder.String()
      v, found := memorized.Load(key)
      if found { return v, nil }
      name1, name2 := args[0].(string), args[1].(string)
      if rm == nil { v = name1 == name2
      } else if len(args) == 2 { v, _ = rm.HasLink(name1, name2)
      } else { domain := args[2].(string); v, _ = rm.HasLink(name1, name2, domain) }
      memorized.Store(key, v)
      return v, nil\<close>
\<close>

definition GenerateGFunction ::
  "HasLink option \<Rightarrow> (string \<rightharpoonup> bool) \<Rightarrow> arg list \<Rightarrow>
     ((bool \<times> error option) \<times> (string \<rightharpoonup> bool)) option" where
  "GenerateGFunction rm memorized args =
     (case as_strings args of
        None \<Rightarrow> None
      | Some strs \<Rightarrow>
          (let key = cache_key strs in
           case memorized key of
             Some v \<Rightarrow> Some ((v, None), memorized)
           | None \<Rightarrow>
               (case strs of
                  name1 # name2 # rest \<Rightarrow>
                    (let v = (case rm of
                                None \<Rightarrow> name1 = name2
                              | Some hasLink \<Rightarrow>
                                  if length strs = 2 then fst (hasLink name1 name2 [])
                                  else fst (hasLink name1 name2 [hd rest]))
                     in Some ((v, None), memorized(key \<mapsto> v)))
                | _ \<Rightarrow> None)))"

text \<open>
  The closure returned by \<open>GenerateConditionalGFunction(crm)\<close>:
  \<^verbatim>\<open>
      name1, name2 := args[0].(string), args[1].(string)
      if crm == nil { hasLink = name1 == name2
      } else if len(args) == 2 { hasLink, _ = crm.HasLink(name1, name2)
      } else { domain := args[2].(string); hasLink, _ = crm.HasLink(name1, name2, domain) }
      return hasLink, nil\<close>
\<close>

definition GenerateConditionalGFunction ::
  "HasLink option \<Rightarrow> arg list \<Rightarrow> (bool \<times> error option) option" where
  "GenerateConditionalGFunction crm args =
     (case args of
        Str name1 # Str name2 # rest \<Rightarrow>
          (case crm of
             None \<Rightarrow> Some (name1 = name2, None)
           | Some hasLink \<Rightarrow>
               if length args = 2 then Some (fst (hasLink name1 name2 []), None)
               else (case rest of
                       Str domain # _ \<Rightarrow> Some (fst (hasLink name1 name2 [domain]), None)
                     | _ \<Rightarrow> None))
      | _ \<Rightarrow> None)"

section \<open>util/builtin_operators.go: TimeMatch\<close>

text \<open>
  An instant (\<open>time.Time\<close>) is an integer count of nanoseconds; \<open>t.After(u)\<close> is \<open>t > u\<close> and
  \<open>t.Before(u)\<close> is \<open>t < u\<close>. The clock reading \<open>time.Now()\<close> and the library function
  \<open>time.Parse(layout, value)\<close> are parameters of the model.
  \<^verbatim>\<open>
  func TimeMatch(startTime, endTime string) (bool, error) {
      now := time.Now()
      if startTime != "_" {
          if start, err := time.Parse("2006-01-02 15:04:05", startTime); err != nil {
              return false, err
          } else if !now.After(start) {
              return false, nil
          }
      }
      if endTime != "_" {
          if end, err := time.Parse("2006-01-02 15:04:05", endTime); err != nil {
              return false, err
          } else if !now.Before(end) {
              return false, nil
          }
      }
      return true, nil
  }\<close>
  The result \<open>(b, err)\<close> is \<open>Inl err\<close> when \<open>err\<close> is not nil and \<open>Inr b\<close> otherwise (the
  source returns \<open>false\<close> beside every error).
\<close>

type_synonym time = int

definition time_layout :: string where
  "time_layout = ''2006-01-02 15:04:05''"

definition TimeMatch_end ::
  "(string \<Rightarrow> string \<Rightarrow> error + time) \<Rightarrow> time \<Rightarrow> string \<Rightarrow> error + bool" where
  "TimeMatch_end time_Parse now endTime =
     (if endTime \<noteq> ''_'' then
        (case time_Parse time_layout endTime of
           Inl err \<Rightarrow> Inl err
         | Inr end_t \<Rightarrow> if \<not> now < end_t then Inr False else Inr True)
      else Inr True)"

definition TimeMatch ::
  "(string \<Rightarrow> string \<Rightarrow> error + time) \<Rightarrow> time \<Rightarrow> string \<Rightarrow> string \<Rightarrow> error + bool" where
  "TimeMatch time_Parse now startTime endTime =
     (if startTime \<noteq> ''_'' then
        (case time_Parse time_layout startTime of
           Inl err \<Rightarrow> Inl err
         | Inr start \<Rightarrow>
             if \<not> now > start then Inr False
             else TimeMatch_end time_Parse now endTime)
      else TimeMatch_end time_Parse now endTime)"

text \<open>A table of \<open>time.Parse\<close> at two instants (Unix seconds scaled to nanoseconds), for
  evaluating \<open>TimeMatch\<close> on concrete inputs.\<close>

definition parse_table :: "string \<Rightarrow> string \<Rightarrow> error + time" where
  "parse_table layout v =
     (if v = ''2024-01-01 00:00:00'' then Inr (1704067200 * 1000000000)
      else if v = ''2024-01-02 00:00:00'' then Inr (1704153600 * 1000000000)
      else Inl ''parsing time: cannot parse'')"

section \<open>model/assertion.go: building role links\<close>

text \<open>
  \<open>strings.Count(s, substr)\<close>: the number of non-overlapping instances of \<open>substr\<close> in \<open>s\<close>.
  The source only counts \<open>"_"\<close>; for an empty \<open>substr\<close> Go returns one more than the number
  of runes of \<open>s\<close>, which the model gives for strings of one-byte runes.
\<close>

function strings_Count :: "string \<Rightarrow> string \<Rightarrow> nat" where
  "strings_Count s substr =
     (if substr = [] then Suc (length s)
      else if s = [] then 0
      else if prefix substr s then Suc (strings_Count (drop (length substr) s) substr)
      else strings_Count (tl s) substr)"
  by pat_completeness auto
termination
  by (relation "measure (\<lambda>(s, substr). length s)") auto

declare strings_Count.simps [simp del]

text \<open>
  The struct \<open>Assertion\<close>. The fields \<open>RM\<close> and \<open>CondRM\<close> hold the role manager the assertion
  was last built with; the functions below return that manager's state instead, and the
  logger is left out.
\<close>

record Assertion =
  Key :: string
  Value :: string
  Tokens :: "string list"
  ParamsTokens :: "string list"
  Policy :: "string list list"
  PolicyMap :: "string \<rightharpoonup> int"
  FieldIndexMap :: "string \<rightharpoonup> int"

text \<open>
  The interfaces \<open>rbac.RoleManager\<close> and \<open>rbac.ConditionalRoleManager\<close> are implemented
  outside the repository's files. An implementation is a state \<open>'rm\<close> with the methods the
  source calls: \<open>AddLink\<close> and \<open>DeleteLink\<close> take the two names and the variadic domain and
  return the new state with the error; the two parameter setters return nothing but the
  new state.
\<close>

record 'rm RoleManager =
  AddLink :: "'rm \<Rightarrow> string \<Rightarrow> string \<Rightarrow> string list \<Rightarrow> 'rm \<times> error option"
  DeleteLink :: "'rm \<Rightarrow> string \<Rightarrow> string \<Rightarrow> string list \<Rightarrow> 'rm \<times> error option"

record 'rm ConditionalRoleManager = "'rm RoleManager" +
  SetLinkConditionFuncParams :: "'rm \<Rightarrow> string \<Rightarrow> string \<Rightarrow> string list \<Rightarrow> 'rm"
  SetDomainLinkConditionFuncParams ::
    "'rm \<Rightarrow> string \<Rightarrow> string \<Rightarrow> string \<Rightarrow> string list \<Rightarrow> 'rm"

text \<open>\<open>PolicyOp\<close> is an integer type with the named values \<open>PolicyAdd\<close> and \<open>PolicyRemove\<close>;
  \<open>PolicyOpOther\<close> is any other value, for which the \<open>switch\<close> has no case.\<close>

datatype PolicyOp = PolicyAdd | PolicyRemove | PolicyOpOther

definition ErrRoleDefinitionCount :: error where
  "ErrRoleDefinitionCount =
     ''the number of '' @ [CHR 0x22] @ ''_'' @ [CHR 0x22] @ '' in role definition should be at least 2''"

definition ErrGroupingPolicy :: error where
  "ErrGroupingPolicy = ''grouping policy elements do not meet role definition''"

text \<open>
  \<^verbatim>\<open>
  func (ast *Assertion) buildRoleLinks(rm rbac.RoleManager) error {
      ast.RM = rm
      count := strings.Count(ast.Value, "_")
      if count < 2 { return errors.New("the number of \"_\" in role definition should be at least 2") }
      for _, rule := range ast.Policy {
          if len(rule) < count { return errors.New("grouping policy elements do not meet role definition") }
          if len(rule) > count { rule = rule[:count] }
          err := ast.RM.AddLink(rule[0], rule[1], rule[2:]...)
          if err != nil { return err }
      }
      return nil
  }\<close>
  The loop is \<open>buildRoleLinks_loop\<close>; it is entered with \<open>2 \<le> count\<close>, so that \<open>rule[0]\<close>,
  \<open>rule[1]\<close> and \<open>rule[2:]\<close> are in range for a rule of at least \<open>count\<close> fields.
\<close>

fun buildRoleLinks_loop ::
  "('rm, 'z) RoleManager_scheme \<Rightarrow> nat \<Rightarrow> string list list \<Rightarrow> 'rm \<Rightarrow> 'rm \<times> error option" where
  "buildRoleLinks_loop rmi count [] rm = (rm, None)"
| "buildRoleLinks_loop rmi count (rule # rules) rm =
     (if length rule < count then (rm, Some ErrGroupingPolicy)
      else
        (let rule = (if length rule > count then take count rule else rule) in
         case AddLink rmi rm (rule ! 0) (rule ! 1) (drop 2 rule) of
           (rm', Some err) \<Rightarrow> (rm', Some err)
         | (rm', None) \<Rightarrow> buildRoleLinks_loop rmi count rules rm'))"

definition buildRoleLinks ::
  "('rm, 'z) RoleManager_scheme \<Rightarrow> Assertion \<Rightarrow> 'rm \<Rightarrow> 'rm \<times> error option" where
  "buildRoleLinks rmi ast rm =
     (let count = strings_Count (Value ast) ''_'' in
      if count < 2 then (rm, Some ErrRoleDefinitionCount)
      else buildRoleLinks_loop rmi count (Policy ast) rm)"

text \<open>
  \<^verbatim>\<open>
  func (ast *Assertion) buildIncrementalRoleLinks(rm rbac.RoleManager, op PolicyOp, rules [][]string) error {
      ast.RM = rm
      count := strings.Count(ast.Value, "_")
      if count < 2 { return errors.New(...) }
      for _, rule := range rules {
          if len(rule) < count { return errors.New(...) }
          if len(rule) > count { rule = rule[:count] }
          switch op {
          case PolicyAdd:
              err := rm.AddLink(rule[0], rule[1], rule[2:]...)
              if err != nil { return err }
          case PolicyRemove:
              err := rm.DeleteLink(rule[0], rule[1], rule[2:]...)
              if err != nil { return err }
          }
      }
      return nil
  }\<close>
\<close>

fun buildIncrementalRoleLinks_loop ::
  "('rm, 'z) RoleManager_scheme \<Rightarrow> nat \<Rightarrow> PolicyOp \<Rightarrow> string list list \<Rightarrow> 'rm \<Rightarrow>
     'rm \<times> error option" where
  "buildIncrementalRoleLinks_loop rmi count op [] rm = (rm, None)"
| "buildIncrementalRoleLinks_loop rmi count op (rule # rules) rm =
     (if length rule < count then (rm, Some ErrGroupingPolicy)
      else
        (let rule = (if length rule > count then take count rule else rule) in
         case op of
           PolicyAdd \<Rightarrow>
             (case AddLink rmi rm (rule ! 0) (rule ! 1) (drop 2 rule) of
                (rm', Some err) \<Rightarrow> (rm', Some err)
              | (rm', None) \<Rightarrow> buildIncrementalRoleLinks_loop rmi count op rules rm')
         | PolicyRemove \<Rightarrow>
             (case DeleteLink rmi rm (rule ! 0) (rule ! 1) (drop 2 rule) of
                (rm', Some err) \<Rightarrow> (rm', Some err)
              | (rm', None) \<Rightarrow> buildIncrementalRoleLinks_loop rmi count op rules rm')
         | PolicyOpOther \<Rightarrow> buildIncrementalRoleLinks_loop rmi count op rules rm))"

definition buildIncrementalRoleLinks ::
  "('rm, 'z) RoleManager_scheme \<Rightarrow> Assertion \<Rightarrow> 'rm \<Rightarrow> PolicyOp \<Rightarrow> string list list \<Rightarrow>
     'rm \<times> error option" where
  "buildIncrementalRoleLinks rmi ast rm op rules =
     (let count = strings_Count (Value ast) ''_'' in
      if count < 2 then (rm, Some ErrRoleDefinitionCount)
      else buildIncrementalRoleLinks_loop rmi count op rules rm)"

subsection \<open>Slices\<close>

text \<open>
  The conditional builder slices a rule by \<open>len(ast.Tokens)\<close>, which the function does not
  check, so its slice expressions can panic, and a slice expression on a slice is bounded
  by the capacity, not the length. A slice value is therefore its array from the slice's
  start to its capacity together with its length. A rule stored in \<open>Policy\<close> is taken to have
  no spare capacity (\<open>slice_of\<close>). \<open>None\<close> is the panic.
\<close>

type_synonym 'a slice = "'a list \<times> nat"

definition slice_of :: "'a list \<Rightarrow> 'a slice" where
  "slice_of xs = (xs, length xs)"

definition slen :: "'a slice \<Rightarrow> nat" where
  "slen s = snd s"

definition elems :: "'a slice \<Rightarrow> 'a list" where
  "elems s = take (snd s) (fst s)"

text \<open>\<open>s[i]\<close>, in range for \<open>i < len(s)\<close>.\<close>

definition index :: "'a slice \<Rightarrow> nat \<Rightarrow> 'a option" where
  "index s i = (if i < snd s then Some (fst s ! i) else None)"

text \<open>\<open>s[low:high]\<close>, in range for \<open>low \<le> high \<le> cap(s)\<close>; \<open>s[low:]\<close> is \<open>s[low:len(s)]\<close>.\<close>

definition reslice :: "'a slice \<Rightarrow> nat \<Rightarrow> nat \<Rightarrow> 'a slice option" where
  "reslice s low high =
     (if low \<le> high \<and> high \<le> length (fst s) then Some (drop low (fst s), high - low)
      else None)"

definition reslice_from :: "'a slice \<Rightarrow> nat \<Rightarrow> 'a slice option" where
  "reslice_from s low = reslice s low (slen s)"

subsection \<open>Conditional role links\<close>

text \<open>
  \<^verbatim>\<open>
  func (ast *Assertion) addConditionalRoleLink(rule []string, domainRule []string) error {
      var err error
      if len(domainRule) == 0 {
          err = ast.CondRM.AddLink(rule[0], rule[1])
          if err == nil {
              ast.CondRM.SetLinkConditionFuncParams(rule[0], rule[1], rule[len(ast.Tokens):]...)
          }
      } else {
          domain := domainRule[0]
          err = ast.CondRM.AddLink(rule[0], rule[1], domain)
          if err == nil {
              ast.CondRM.SetDomainLinkConditionFuncParams(rule[0], rule[1], domain, rule[len(ast.Tokens):]...)
          }
      }
      return err
  }\<close>
\<close>

definition addConditionalRoleLink ::
  "('rm, 'z) ConditionalRoleManager_scheme \<Rightarrow> Assertion \<Rightarrow> string slice \<Rightarrow> string slice \<Rightarrow>
     'rm \<Rightarrow> ('rm \<times> error option) option" where
  "addConditionalRoleLink crm ast rule domainRule rm =
     (if slen domainRule = 0 then
        (case (index rule 0, index rule 1) of
           (Some r0, Some r1) \<Rightarrow>
             (case AddLink crm rm r0 r1 [] of
                (rm', Some err) \<Rightarrow> Some (rm', Some err)
              | (rm', None) \<Rightarrow>
                  (case reslice_from rule (length (Tokens ast)) of
                     None \<Rightarrow> None
                   | Some params \<Rightarrow>
                       Some (SetLinkConditionFuncParams crm rm' r0 r1 (elems params), None)))
         | _ \<Rightarrow> None)
      else
        (case (index domainRule 0, index rule 0, index rule 1) of
           (Some domain, Some r0, Some r1) \<Rightarrow>
             (case AddLink crm rm r0 r1 [domain] of
                (rm', Some err) \<Rightarrow> Some (rm', Some err)
              | (rm', None) \<Rightarrow>
                  (case reslice_from rule (length (Tokens ast)) of
                     None \<Rightarrow> None
                   | Some params \<Rightarrow>
                       Some (SetDomainLinkConditionFuncParams crm rm' r0 r1 domain (elems params),
                             None)))
         | _ \<Rightarrow> None))"

text \<open>
  \<^verbatim>\<open>
  func (ast *Assertion) buildConditionalRoleLinks(condRM rbac.ConditionalRoleManager) error {
      ast.CondRM = condRM
      count := strings.Count(ast.Value, "_")
      if count < 2 { return errors.New(...) }
      for _, rule := range ast.Policy {
          if len(rule) < count { return errors.New(...) }
          if len(rule) > count { rule = rule[:count] }
          domainRule := rule[2:len(ast.Tokens)]
          err := ast.addConditionalRoleLink(rule, domainRule)
          if err != nil { return err }
      }
      return nil
  }\<close>
\<close>

fun buildConditionalRoleLinks_loop ::
  "('rm, 'z) ConditionalRoleManager_scheme \<Rightarrow> Assertion \<Rightarrow> nat \<Rightarrow> string list list \<Rightarrow> 'rm \<Rightarrow>
     ('rm \<times> error option) option" where
  "buildConditionalRoleLinks_loop crm ast count [] rm = Some (rm, None)"
| "buildConditionalRoleLinks_loop crm ast count (r # rules) rm =
     (if length r < count then Some (rm, Some ErrGroupingPolicy)
      else
        (case (if length r > count then reslice (slice_of r) 0 count else Some (slice_of r)) of
           None \<Rightarrow> None
         | Some rule \<Rightarrow>
             (case reslice rule 2 (length (Tokens ast)) of
                None \<Rightarrow> None
              | Some domainRule \<Rightarrow>
                  (case addConditionalRoleLink crm ast rule domainRule rm of
                     None \<Rightarrow> None
                   | Some (rm', Some err) \<Rightarrow> Some (rm', Some err)
                   | Some (rm', None) \<Rightarrow>
                       buildConditionalRoleLinks_loop crm ast count rules rm'))))"

definition buildConditionalRoleLinks ::
  "('rm, 'z) ConditionalRoleManager_scheme \<Rightarrow> Assertion \<Rightarrow> 'rm \<Rightarrow> ('rm \<times> error option) option" where
  "buildConditionalRoleLinks crm ast rm =
     (let count = strings_Count (Value ast) ''_'' in
      if count < 2 then Some (rm, Some ErrRoleDefinitionCount)
      else buildConditionalRoleLinks_loop crm ast count (Policy ast) rm)"

subsection \<open>What a build is to do, rule by rule\<close>

text \<open>
  \<open>for_rules count link rules rm\<close> goes through the rules in order: a rule of fewer than
  \<open>count\<close> fields ends the build with the grouping-policy error, and otherwise \<open>link\<close> is
  applied to the rule, its error ending the build.
\<close>

fun for_rules ::
  "nat \<Rightarrow> (string list \<Rightarrow> 'rm \<Rightarrow> 'rm \<times> error option) \<Rightarrow> string list list \<Rightarrow> 'rm \<Rightarrow>
     'rm \<times> error option" where
  "for_rules count link [] rm = (rm, None)"
| "for_rules count link (r # rules) rm =
     (if length r < count then (rm, Some ErrGroupingPolicy)
      else case link r rm of
             (rm', Some err) \<Rightarrow> (rm', Some err)
           | (rm', None) \<Rightarrow> for_rules count link rules rm')"

text \<open>
  The link of a plain role manager: an edge between the first two fields, with the fields
  from position 2 up to \<open>count\<close> as the domain.
\<close>

definition plain_link ::
  "('rm, 'z) RoleManager_scheme \<Rightarrow> nat \<Rightarrow> string list \<Rightarrow> 'rm \<Rightarrow> 'rm \<times> error option" where
  "plain_link rmi count r rm = AddLink rmi rm (r ! 0) (r ! 1) (drop 2 (take count r))"

text \<open>
  The link of a conditional role manager, for an assertion of \<open>n\<close> tokens: the rule is cut
  to its first \<open>count\<close> fields; the edge goes from field 0 to field 1, qualified by the
  domain field 2 exactly when the fields from position 2 up to \<open>n\<close> are not empty; and when
  the edge was added, the fields from position \<open>n\<close> on (of the rule as cut) are set as the
  parameters of the link condition.
\<close>

definition conditional_link ::
  "('rm, 'z) ConditionalRoleManager_scheme \<Rightarrow> nat \<Rightarrow> nat \<Rightarrow> string list \<Rightarrow> 'rm \<Rightarrow>
     'rm \<times> error option" where
  "conditional_link crm n count r rm =
     (let rule = take count r in
      if drop 2 (take n rule) = [] then
        (case AddLink crm rm (rule ! 0) (rule ! 1) [] of
           (rm', Some err) \<Rightarrow> (rm', Some err)
         | (rm', None) \<Rightarrow>
             (SetLinkConditionFuncParams crm rm' (rule ! 0) (rule ! 1) (drop n rule), None))
      else
        (case AddLink crm rm (rule ! 0) (rule ! 1) [rule ! 2] of
           (rm', Some err) \<Rightarrow> (rm', Some err)
         | (rm', None) \<Rightarrow>
             (SetDomainLinkConditionFuncParams crm rm' (rule ! 0) (rule ! 1) (rule ! 2)
                (drop n rule), None)))"

text \<open>
  The link of an incremental build: \<open>AddLink\<close> for \<open>PolicyAdd\<close>, \<open>DeleteLink\<close> for
  \<open>PolicyRemove\<close>, on the same arguments as \<open>plain_link\<close>, and nothing for another value.
\<close>

definition incremental_link ::
  "('rm, 'z) RoleManager_scheme \<Rightarrow> nat \<Rightarrow> PolicyOp \<Rightarrow> string list \<Rightarrow> 'rm \<Rightarrow> 'rm \<times> error option" where
  "incremental_link rmi count op r rm =
     (case op of
        PolicyAdd \<Rightarrow> AddLink rmi rm (r ! 0) (r ! 1) (drop 2 (take count r))
      | PolicyRemove \<Rightarrow> DeleteLink rmi rm (r ! 0) (r ! 1) (drop 2 (take count r))
      | PolicyOpOther \<Rightarrow> (rm, None))"

subsection \<open>A role manager that records its calls\<close>

text \<open>
  To observe what a build passes to the role manager, \<open>recorder\<close> implements the interface
  by appending each call to a log; its \<open>AddLink\<close> and \<open>DeleteLink\<close> return no error.
\<close>

datatype rm_call =
    AddLink_call string string "string list"
  | DeleteLink_call string string "string list"
  | SetLinkConditionFuncParams_call string string "string list"
  | SetDomainLinkConditionFuncParams_call string string string "string list"

definition recorder :: "(rm_call list) ConditionalRoleManager" where
  "recorder =
     \<lparr> AddLink = (\<lambda>log a b dom. (log @ [AddLink_call a b dom], None)),
       DeleteLink = (\<lambda>log a b dom. (log @ [DeleteLink_call a b dom], None)),
       SetLinkConditionFuncParams =
         (\<lambda>log a b ps. log @ [SetLinkConditionFuncParams_call a b ps]),
       SetDomainLinkConditionFuncParams =
         (\<lambda>log a b d ps. log @ [SetDomainLinkConditionFuncParams_call a b d ps]) \<rparr>"

text \<open>Two \<open>g\<close>-assertions to evaluate the builds on: \<open>g = _, _, (_, _)\<close> with a rule of five
  fields, and \<open>g = _, _, _\<close> with a rule of four fields and a rule of two.\<close>

definition g_conditional :: Assertion where
  "g_conditional =
     \<lparr> Key = ''g'', Value = ''_, _, (_, _)'', Tokens = [''_'', '' _''],
       ParamsTokens = [''_'', '' _''],
       Policy = [[''alice'', ''admin'', ''t1'', ''t2'', ''extra'']],
       PolicyMap = [''alice,admin,t1,t2,extra'' \<mapsto> 0], FieldIndexMap = Map.empty \<rparr>"

definition g_domain :: Assertion where
  "g_domain =
     \<lparr> Key = ''g'', Value = ''_, _, _'', Tokens = [''_'', '' _'', '' _''],
       ParamsTokens = [],
       Policy = [[''alice'', ''admin'', ''dom1'', ''extra''], [''bob'', ''admin'']],
       PolicyMap = [''alice,admin,dom1,extra'' \<mapsto> 0, ''bob,admin'' \<mapsto> 1],
       FieldIndexMap = Map.empty \<rparr>"

section \<open>persist: loading a policy line\<close>

text \<open>
  \<open>model.Model\<close> is \<open>map[string]AssertionMap\<close> and \<open>AssertionMap\<close> is
  \<open>map[string]*Assertion\<close>: a section name gives the assertions of the section by key.
\<close>

type_synonym AssertionMap = "string \<rightharpoonup> Assertion"

type_synonym Model = "string \<rightharpoonup> AssertionMap"

text \<open>
  The methods \<open>HasPolicyEx\<close> and \<open>AddPolicy\<close> of \<open>model.Model\<close> are not among the
  repository's files. \<open>LoadPolicyArray\<close> takes them as a parameter over a model state \<open>'m\<close>:
  \<open>HasPolicyEx\<close> reads the model and returns \<open>(bool, error)\<close>, \<open>AddPolicy\<close> returns the model
  after the call with its error.
\<close>

record 'm Model_methods =
  HasPolicyEx :: "'m \<Rightarrow> string \<Rightarrow> string \<Rightarrow> string list \<Rightarrow> error + bool"
  AddPolicy :: "'m \<Rightarrow> string \<Rightarrow> string \<Rightarrow> string list \<Rightarrow> 'm \<times> error option"

text \<open>
  \<^verbatim>\<open>
  func LoadPolicyArray(rule []string, m model.Model) error {
      key := rule[0]
      sec := key[:1]
      ok, err := m.HasPolicyEx(sec, key, rule[1:])
      if err != nil { return err }
      if ok { return nil // skip duplicated policy }
      err = m.AddPolicy(sec, key, rule[1:])
      if err != nil { return err }
      return nil
  }\<close>
  The result is the model after the call with the returned error; \<open>None\<close> is a panic:
  \<open>rule[0]\<close> on an empty rule, or \<open>key[:1]\<close> on an empty first field.
\<close>

definition LoadPolicyArray ::
  "('m, 'z) Model_methods_scheme \<Rightarrow> string list \<Rightarrow> 'm \<Rightarrow> ('m \<times> error option) option" where
  "LoadPolicyArray st rule m =
     (case rule of
        [] \<Rightarrow> None
      | key # rest \<Rightarrow>
          if length key < 1 then None
          else
            (let sec = take 1 key in
             case HasPolicyEx st m sec key rest of
               Inl err \<Rightarrow> Some (m, Some err)
             | Inr ok \<Rightarrow>
                 if ok then Some (m, None)
                 else Some (AddPolicy st m sec key rest)))"

text \<open>
  The CSV reader is Go's \<open>encoding/csv\<close>; \<open>csv_Read cfg line\<close> is the first \<open>Read()\<close> of a
  reader over \<open>line\<close> with the fields \<open>Comma\<close>, \<open>Comment\<close> and \<open>TrimLeadingSpace\<close> set as in
  \<open>cfg\<close>, and is a parameter of the model.
  \<^verbatim>\<open>
  func LoadPolicyLine(line string, m model.Model) error {
      if line == "" || strings.HasPrefix(line, "#") { return nil }
      r := csv.NewReader(strings.NewReader(line))
      r.Comma = ','
      r.Comment = '#'
      r.TrimLeadingSpace = true
      tokens, err := r.Read()
      if err != nil { return err }
      return LoadPolicyArray(tokens, m)
  }\<close>
\<close>

record csv_Reader =
  Comma :: char
  Comment :: char
  TrimLeadingSpace :: bool

definition policy_csv :: csv_Reader where
  "policy_csv = \<lparr> Comma = CHR '','', Comment = CHR ''#'', TrimLeadingSpace = True \<rparr>"

definition LoadPolicyLine ::
  "(csv_Reader \<Rightarrow> string \<Rightarrow> error + string list) \<Rightarrow> ('m, 'z) Model_methods_scheme \<Rightarrow>
     string \<Rightarrow> 'm \<Rightarrow> ('m \<times> error option) option" where
  "LoadPolicyLine csv_Read st line m =
     (if line = '''' \<or> prefix ''#'' line then Some (m, None)
      else
        (case csv_Read policy_csv line of
           Inl err \<Rightarrow> Some (m, Some err)
         | Inr tokens \<Rightarrow> LoadPolicyArray st tokens m))"

subsection \<open>The policy store of the specification\<close>

text \<open>\<open>strings.Join(elems, sep)\<close>.\<close>

fun strings_Join :: "string list \<Rightarrow> string \<Rightarrow> string" where
  "strings_Join [] sep = ''''"
| "strings_Join [x] sep = x"
| "strings_Join (x # y # ys) sep = x @ sep @ strings_Join (y # ys) sep"

text \<open>
  Modelled from the spec: the canonical form of a rule, the methods \<open>HasPolicyEx\<close> and
  \<open>AddPolicy\<close> of the model, and the operation \<open>add_policy\<close> of the policy store are not in
  the repository's files. The spec (4.2): the canonical form is \<open>the rule's positional
  fields joined by a delimiter\<close> (the comma is taken here); \<open>add_policy(section, key, rule)\<close>:
  \<open>if canonical(rule) \<in> policyIndex return (false, nil); else append and index\<close>; and
  \<open>has_policy\<close> is a read query on the same index. The spec does not say what happens when
  the model has no assertion for the section and key; the model returns an error then and
  leaves the model as it is.
\<close>

definition canonical :: "string list \<Rightarrow> string" where
  "canonical rule = strings_Join rule '',''"

definition ErrMissingAssertion :: error where
  "ErrMissingAssertion = ''missing assertion''"

definition GetAssertion :: "Model \<Rightarrow> string \<Rightarrow> string \<Rightarrow> error + Assertion" where
  "GetAssertion m sec key =
     (case m sec of
        None \<Rightarrow> Inl ErrMissingAssertion
      | Some am \<Rightarrow> (case am key of None \<Rightarrow> Inl ErrMissingAssertion | Some ast \<Rightarrow> Inr ast))"

definition SetAssertion :: "Model \<Rightarrow> string \<Rightarrow> string \<Rightarrow> Assertion \<Rightarrow> Model" where
  "SetAssertion m sec key ast =
     m(sec \<mapsto> (case m sec of None \<Rightarrow> Map.empty | Some am \<Rightarrow> am)(key \<mapsto> ast))"

definition has_rule :: "Assertion \<Rightarrow> string list \<Rightarrow> bool" where
  "has_rule ast rule \<longleftrightarrow> PolicyMap ast (canonical rule) \<noteq> None"

definition append_rule :: "Assertion \<Rightarrow> string list \<Rightarrow> Assertion" where
  "append_rule ast rule =
     ast\<lparr> Policy := Policy ast @ [rule],
          PolicyMap := (PolicyMap ast)(canonical rule \<mapsto> int (length (Policy ast))) \<rparr>"

definition Model_HasPolicyEx :: "Model \<Rightarrow> string \<Rightarrow> string \<Rightarrow> string list \<Rightarrow> error + bool" where
  "Model_HasPolicyEx m sec key rule =
     (case GetAssertion m sec key of
        Inl err \<Rightarrow> Inl err
      | Inr ast \<Rightarrow> Inr (has_rule ast rule))"

definition Model_AddPolicy ::
  "Model \<Rightarrow> string \<Rightarrow> string \<Rightarrow> string list \<Rightarrow> Model \<times> error option" where
  "Model_AddPolicy m sec key rule =
     (case GetAssertion m sec key of
        Inl err \<Rightarrow> (m, Some err)
      | Inr ast \<Rightarrow> (SetAssertion m sec key (append_rule ast rule), None))"

definition add_policy ::
  "Model \<Rightarrow> string \<Rightarrow> string \<Rightarrow> string list \<Rightarrow> Model \<times> bool \<times> error option" where
  "add_policy m sec key rule =
     (case GetAssertion m sec key of
        Inl err \<Rightarrow> (m, False, Some err)
      | Inr ast \<Rightarrow>
          if has_rule ast rule then (m, False, None)
          else (SetAssertion m sec key (append_rule ast rule), True, None))"

definition spec_store :: "Model Model_methods" where
  "spec_store = \<lparr> HasPolicyEx = Model_HasPolicyEx, AddPolicy = Model_AddPolicy \<rparr>"

text \<open>The invariant of the spec (3): every rule stored in \<open>policy\<close> has
  \<open>policyIndex[canonical(r)] = index of r\<close>.\<close>

definition indexed :: "Assertion \<Rightarrow> bool" where
  "indexed ast \<longleftrightarrow>
     list_all (\<lambda>(i, r). PolicyMap ast (canonical r) = Some (int i)) (enumerate 0 (Policy ast))"

text \<open>A table of the CSV reader at four lines, and a model with the assertion \<open>p\<close> holding
  one rule, for evaluating the loader on concrete inputs.\<close>

definition csv_table :: "csv_Reader \<Rightarrow> string \<Rightarrow> error + string list" where
  "csv_table cfg line =
     (if line = ''p, alice, data1, read'' then Inr [''p'', ''alice'', ''data1'', ''read'']
      else if line = ''p, bob, data2, write'' then Inr [''p'', ''bob'', ''data2'', ''write'']
      else if line = ''g, alice, admin'' then Inr [''g'', ''alice'', ''admin'']
      else if line = '',alice'' then Inr ['''', ''alice'']
      else Inl ''record on line 1: parse error'')"

definition p_bob :: Assertion where
  "p_bob =
     \<lparr> Key = ''p'', Value = ''sub, obj, act'', Tokens = [''p_sub'', ''p_obj'', ''p_act''],
       ParamsTokens = [], Policy = [[''bob'', ''data2'', ''write'']],
       PolicyMap = [''bob,data2,write'' \<mapsto> 0], FieldIndexMap = Map.empty \<rparr>"

definition basic_model :: Model where
  "basic_model = [''p'' \<mapsto> [''p'' \<mapsto> p_bob], ''g'' \<mapsto> [''g'' \<mapsto> g_domain]]"

section \<open>persist/file-adapter: saving the policy\<close>

text \<open>
  Modelled from the spec: \<open>util.ArrayToString\<close> is not in the repository's files. The
  spec (6) gives the stored form of a rule, \<open>p, alice, data1, read\<close>: the fields separated
  by a comma and a space.
\<close>

definition ArrayToString :: "string list \<Rightarrow> string" where
  "ArrayToString s = strings_Join s '', ''"

text \<open>\<open>strings.TrimRight(s, cutset)\<close>: \<open>s\<close> without its trailing bytes that are in
  \<open>cutset\<close> (a cutset of one-byte characters).\<close>

definition strings_TrimRight :: "string \<Rightarrow> string \<Rightarrow> string" where
  "strings_TrimRight s cutset = rev (dropWhile (\<lambda>c. c \<in> set cutset) (rev s))"

record Adapter =
  filePath :: string

text \<open>
  \<^verbatim>\<open>
  func (a *Adapter) SavePolicy(model model.Model) error {
      if a.filePath == "" {
          return errors.New("invalid file path, file path cannot be empty")
      }
      var tmp bytes.Buffer
      for ptype, ast := range model["p"] {
          for _, rule := range ast.Policy {
              tmp.WriteString(ptype + ", ")
              tmp.WriteString(util.ArrayToString(rule))
              tmp.WriteString("\n")
          }
      }
      for ptype, ast := range model["g"] { ... the same ... }
      return a.savePolicyFile(strings.TrimRight(tmp.String(), "\n"))
  }\<close>
  Go leaves the order in which \<open>range\<close> visits the keys of a map open, so the order of each
  of the two loops is a parameter: a list of keys (\<open>range_order\<close>: every key of the map,
  once). \<open>model["p"]\<close> of a model without that section is the nil map, which has no keys.
  The buffer \<open>tmp\<close> is threaded through the loops. The result is the error of the path
  check, or the text handed to \<open>savePolicyFile\<close>, whose file operations are outside the
  model.
\<close>

definition section_of :: "Model \<Rightarrow> string \<Rightarrow> AssertionMap" where
  "section_of model sec = (case model sec of None \<Rightarrow> Map.empty | Some am \<Rightarrow> am)"

definition range_order :: "('k \<rightharpoonup> 'v) \<Rightarrow> 'k list \<Rightarrow> bool" where
  "range_order m ks \<longleftrightarrow> distinct ks \<and> set ks = dom m"

fun write_rules :: "string \<Rightarrow> string list list \<Rightarrow> string \<Rightarrow> string" where
  "write_rules ptype [] tmp = tmp"
| "write_rules ptype (rule # rules) tmp =
     write_rules ptype rules (tmp @ (ptype @ '', '') @ ArrayToString rule @ [CHR 0x0A])"

fun write_section :: "AssertionMap \<Rightarrow> string list \<Rightarrow> string \<Rightarrow> string" where
  "write_section am [] tmp = tmp"
| "write_section am (ptype # ptypes) tmp =
     (case am ptype of
        None \<Rightarrow> write_section am ptypes tmp
      | Some ast \<Rightarrow> write_section am ptypes (write_rules ptype (Policy ast) tmp))"

definition SavePolicy ::
  "Adapter \<Rightarrow> Model \<Rightarrow> string list \<Rightarrow> string list \<Rightarrow> error + string" where
  "SavePolicy a model p_order g_order =
     (if filePath a = '''' then Inl ''invalid file path, file path cannot be empty''
      else
        (let tmp = '''';
             tmp = write_section (section_of model ''p'') p_order tmp;
             tmp = write_section (section_of model ''g'') g_order tmp
         in Inr (strings_TrimRight tmp [CHR 0x0A])))"

text \<open>
  The wording of the claim: the stored rules of a section in the order of the save, each
  with the key of its assertion, and the line written for one of them,
  \<open>key, field1, field2, ...\<close> with a newline.
\<close>

definition stored_rules :: "AssertionMap \<Rightarrow> string list \<Rightarrow> (string \<times> string list) list" where
  "stored_rules am ks = concat (map (\<lambda>k. map (Pair k) (Policy (the (am k)))) ks)"

definition policy_line :: "string \<times> string list \<Rightarrow> string" where
  "policy_line kr = fst kr @ '', '' @ strings_Join (snd kr) '', '' @ [CHR 0x0A]"

section \<open>Facts about the string primitives\<close>

lemma Index_from_char:
  "Index_from s [c] n =
     (if c \<in> set s then int (n + length (takeWhile (\<lambda>x. x \<noteq> c) s)) else - 1)"
  by (induction s arbitrary: n) auto

lemma strings_Index_absent: "c \<notin> set s \<Longrightarrow> strings_Index s [c] = - 1"
  by (simp add: strings_Index_def Index_from_char)

lemma strings_Index_present:
  "c \<in> set s \<Longrightarrow> strings_Index s [c] = int (length (takeWhile (\<lambda>x. x \<noteq> c) s))"
  by (simp add: strings_Index_def Index_from_char)

lemma take_upto_first: "take (length (takeWhile P s)) s = takeWhile P s"
  by (induction s) auto

lemma takeWhile_prefix_star:
  "c \<notin> set p \<Longrightarrow> takeWhile (\<lambda>x. x \<noteq> c) (p @ c # r) = p"
  by (induction p) auto

section \<open>KeyMatch\<close>

lemma KeyMatch_no_star: "CHR ''*'' \<notin> set b \<Longrightarrow> KeyMatch a b \<longleftrightarrow> a = b"
  by (simp add: KeyMatch_def strings_Index_absent)

lemma KeyMatch_star:
  assumes "CHR ''*'' \<in> set b"
  shows "KeyMatch a b \<longleftrightarrow> prefix (takeWhile (\<lambda>x. x \<noteq> CHR ''*'') b) a"
proof -
  let ?p = "takeWhile (\<lambda>x. x \<noteq> CHR ''*'') b"
  have i: "strings_Index b ''*'' = int (length ?p)"
    using assms by (simp add: strings_Index_present)
  have tk: "take (length ?p) b = ?p" by (rule take_upto_first)
  show ?thesis
  proof (cases "length ?p < length a")
    case True
    then have "KeyMatch a b \<longleftrightarrow> take (length ?p) a = ?p"
      by (simp add: KeyMatch_def i tk)
    also have "\<dots> \<longleftrightarrow> prefix ?p a"
    proof
      assume "take (length ?p) a = ?p"
      then show "prefix ?p a" by (metis take_is_prefix)
    next
      assume "prefix ?p a"
      then show "take (length ?p) a = ?p" by (auto simp: prefix_def)
    qed
    finally show ?thesis .
  next
    case False
    then have "KeyMatch a b \<longleftrightarrow> a = ?p"
      by (simp add: KeyMatch_def i tk)
    also have "\<dots> \<longleftrightarrow> prefix ?p a"
    proof
      assume "a = ?p" then show "prefix ?p a" by simp
    next
      assume p: "prefix ?p a"
      then have "length ?p \<le> length a" by (rule prefix_length_le)
      with False have "length ?p = length a" by simp
      with p show "a = ?p" by (auto simp: prefix_def)
    qed
    finally show ?thesis .
  qed
qed

text \<open>
  Claim C7. For every string \<open>a\<close> and pattern \<open>b\<close>: when \<open>b\<close> contains no \<open>*\<close>,
  \<open>KeyMatch a b\<close> holds exactly when \<open>a = b\<close>; and when \<open>b\<close> is a \<open>*\<close>-free prefix \<open>p\<close>
  followed by \<open>*\<close>, \<open>KeyMatch a b\<close> holds exactly when \<open>p\<close> is a prefix of \<open>a\<close>.
\<close>

theorem KeyMatch_spec:
  "(CHR ''*'' \<notin> set b \<longrightarrow> (KeyMatch a b \<longleftrightarrow> a = b)) \<and>
   (CHR ''*'' \<notin> set p \<longrightarrow> (KeyMatch a (p @ ''*'') \<longleftrightarrow> prefix p a))"
proof (intro conjI impI)
  assume "CHR ''*'' \<notin> set b"
  then show "KeyMatch a b \<longleftrightarrow> a = b" by (rule KeyMatch_no_star)
next
  assume p: "CHR ''*'' \<notin> set p"
  have "KeyMatch a (p @ ''*'') \<longleftrightarrow>
        prefix (takeWhile (\<lambda>x. x \<noteq> CHR ''*'') (p @ ''*'')) a"
    by (rule KeyMatch_star) simp
  with p show "KeyMatch a (p @ ''*'') \<longleftrightarrow> prefix p a"
    by (simp add: takeWhile_prefix_star)
qed

theorem KeyMatch_spec_witness:
  "CHR ''*'' \<notin> set ''/foo/bar'' \<and> CHR ''*'' \<notin> set ''/foo/'' \<and>
   KeyMatch ''/foo/bar'' ''/foo/bar'' \<and> \<not> KeyMatch ''/foo/baz'' ''/foo/bar'' \<and>
   KeyMatch ''/foo/bar'' ''/foo/*'' \<and> prefix ''/foo/'' ''/foo/bar'' \<and>
   \<not> KeyMatch ''/fo'' ''/foo/*''"
  using KeyMatch_spec [of "''/foo/bar''" "''/foo/bar''" "''/foo/''"]
        KeyMatch_spec [of "''/foo/bar''" "''/foo/baz''" "''/foo/''"]
        KeyMatch_spec [of "''/foo/bar''" "''/fo''" "''/foo/''"]
  by (simp add: prefix_def)

section \<open>KeyGet\<close>

lemma KeyGet_nonempty_star: "KeyGet a b \<noteq> '''' \<Longrightarrow> CHR ''*'' \<in> set b"
  by (rule ccontr) (simp add: KeyGet_def strings_Index_absent)

lemma KeyGet_nonempty_shape:
  assumes "KeyGet a b \<noteq> ''''"
  defines "p \<equiv> takeWhile (\<lambda>x. x \<noteq> CHR ''*'') b"
  shows "length p < length a" and "take (length p) a = p" and "KeyGet a b = drop (length p) a"
proof -
  have star: "CHR ''*'' \<in> set b" using assms(1) by (rule KeyGet_nonempty_star)
  then have i: "strings_Index b ''*'' = int (length p)"
    by (simp add: strings_Index_present p_def)
  have tk: "take (length p) b = p" unfolding p_def by (rule take_upto_first)
  show len: "length p < length a"
    using assms(1) by (simp add: KeyGet_def Let_def i split: if_splits)
  show eq: "take (length p) a = p"
    using assms(1) len by (simp add: KeyGet_def Let_def i tk split: if_splits)
  show "KeyGet a b = drop (length p) a"
    using len eq by (simp add: KeyGet_def Let_def i tk)
qed

text \<open>
  Claim C10. For all strings \<open>a\<close> and \<open>b\<close>: when \<open>b\<close> contains no \<open>*\<close>, \<open>KeyGet a b\<close> is the
  empty string; and whenever \<open>KeyGet a b\<close> is not empty, \<open>KeyMatch a b\<close> holds and the part of
  \<open>b\<close> before its first \<open>*\<close>, followed by \<open>KeyGet a b\<close>, is \<open>a\<close>.
\<close>

theorem KeyGet_spec:
  "(CHR ''*'' \<notin> set b \<longrightarrow> KeyGet a b = '''') \<and>
   (KeyGet a b \<noteq> '''' \<longrightarrow>
      KeyMatch a b \<and> takeWhile (\<lambda>c. c \<noteq> CHR ''*'') b @ KeyGet a b = a)"
proof (intro conjI impI)
  assume "CHR ''*'' \<notin> set b"
  then show "KeyGet a b = ''''" by (simp add: KeyGet_def strings_Index_absent)
next
  assume ne: "KeyGet a b \<noteq> ''''"
  let ?p = "takeWhile (\<lambda>c. c \<noteq> CHR ''*'') b"
  have tk: "take (length ?p) a = ?p" using ne by (rule KeyGet_nonempty_shape(2))
  have "prefix ?p a" using tk by (metis take_is_prefix)
  then show "KeyMatch a b"
    using KeyGet_nonempty_star [OF ne] by (simp add: KeyMatch_star)
next
  assume ne: "KeyGet a b \<noteq> ''''"
  let ?p = "takeWhile (\<lambda>c. c \<noteq> CHR ''*'') b"
  have "?p @ KeyGet a b = take (length ?p) a @ drop (length ?p) a"
    using KeyGet_nonempty_shape(2,3) [OF ne] by simp
  then show "?p @ KeyGet a b = a" by simp
qed

theorem KeyGet_spec_witness:
  "CHR ''*'' \<notin> set ''/foo/bar'' \<and> KeyGet ''/foo/bar/foo'' ''/foo/bar'' = '''' \<and>
   KeyGet ''/foo/bar/foo'' ''/foo/*'' = ''bar/foo'' \<and> KeyMatch ''/foo/bar/foo'' ''/foo/*'' \<and>
   takeWhile (\<lambda>c. c \<noteq> CHR ''*'') ''/foo/*'' @ KeyGet ''/foo/bar/foo'' ''/foo/*'' = ''/foo/bar/foo''"
proof -
  have v: "KeyGet ''/foo/bar/foo'' ''/foo/*'' = ''bar/foo''"
    by (simp add: KeyGet_def strings_Index_def)
  then have ne: "KeyGet ''/foo/bar/foo'' ''/foo/*'' \<noteq> ''''" by simp
  show ?thesis
    using KeyGet_spec [of "''/foo/bar''" "''/foo/bar/foo''"]
          KeyGet_spec [of "''/foo/*''" "''/foo/bar/foo''"] v ne
    by simp
qed

section \<open>KeyMatch5 is KeyMatch3 behind the query string\<close>

lemma truncate_at_query:
  "(let i = strings_Index a ''?'' in if i \<noteq> - 1 then take (nat i) a else a) = strip_query a"
proof (cases "CHR ''?'' \<in> set a")
  case True
  then show ?thesis
    by (simp add: strings_Index_present strip_query_def take_upto_first)
next
  case False
  then have tw: "takeWhile (\<lambda>c. c \<noteq> CHR ''?'') a = a" by (induction a) auto
  show ?thesis
    using False by (simp add: strings_Index_absent strip_query_def tw)
qed

text \<open>
  Claim C8. For all strings \<open>a\<close> and \<open>b\<close>, \<open>KeyMatch5(a, b)\<close> is \<open>KeyMatch3(a', b)\<close>, where
  \<open>a'\<close> is \<open>a\<close> truncated at its first \<open>?\<close> (and \<open>a\<close> itself when it has none). This holds
  for every behaviour of the regular-expression library, a panic of \<open>RegexMatch\<close> included.
\<close>

theorem KeyMatch5_is_KeyMatch3: "KeyMatch5 lib a b = KeyMatch3 lib (strip_query a) b"
proof -
  have "KeyMatch5 lib a b =
        RegexMatch lib (let i = strings_Index a ''?'' in if i \<noteq> - 1 then take (nat i) a else a)
          (''^'' @ ReplaceAllString lib keyMatch5Re (strings_Replace b ''/*'' ''/.*'')
             ''$1[^/]+$2'' @ ''$'')"
    by (simp add: KeyMatch5_def Let_def)
  also have "\<dots> = RegexMatch lib (strip_query a)
          (''^'' @ ReplaceAllString lib keyMatch3Re (strings_Replace b ''/*'' ''/.*'')
             ''$1[^/]+$2'' @ ''$'')"
    by (simp only: truncate_at_query keyMatch5Re_def keyMatch3Re_def)
  also have "\<dots> = KeyMatch3 lib (strip_query a) b"
    by (simp add: KeyMatch3_def Let_def)
  finally show ?thesis .
qed

section \<open>TimeMatch\<close>

lemma TimeMatch_end_cases:
  "TimeMatch_end P now e =
     (if e = ''_'' then Inr True
      else case P time_layout e of Inl err \<Rightarrow> Inl err | Inr t \<Rightarrow> Inr (now < t))"
  by (simp add: TimeMatch_end_def split: sum.splits)

text \<open>
  Claim C3, as stated, fails. With the current time exactly at the start bound the source
  answers \<open>false\<close> (\<open>!now.After(start)\<close>), where a half-open interval \<open>[start, end)\<close> contains
  it; and an end bound that does not parse yields no error when the current time is not
  after the start bound, because the function has returned before parsing it.
\<close>

theorem TimeMatch_half_open_counterexample:
  "parse_table time_layout ''2024-01-01 00:00:00'' = Inr 1704067200000000000 \<and>
   (1704067200000000000 :: time) \<le> 1704067200000000000 \<and>
   TimeMatch parse_table 1704067200000000000 ''2024-01-01 00:00:00'' ''_'' = Inr False \<and>
   parse_table time_layout ''tomorrow'' = Inl ''parsing time: cannot parse'' \<and>
   TimeMatch parse_table 1704067200000000000 ''2024-01-01 00:00:00'' ''tomorrow'' = Inr False"
  by (simp add: TimeMatch_def TimeMatch_end_def parse_table_def time_layout_def)

text \<open>
  Claim C3, amended. For bounds that each are \<open>"_"\<close> or parse in the layout
  \<open>"2006-01-02 15:04:05"\<close>, \<open>TimeMatch\<close> returns true exactly when the current time is in the
  open interval: strictly after the start when the start is not \<open>"_"\<close>, and strictly before
  the end when the end is not \<open>"_"\<close>. A start bound that is neither \<open>"_"\<close> nor parsable
  yields its parse error. An end bound that is neither \<open>"_"\<close> nor parsable yields its
  parse error when the start is \<open>"_"\<close> or the current time is after it; when the current
  time is not after a parsable start, the result is false and the end bound is not looked at.
\<close>

theorem TimeMatch_open_interval:
  "((s = ''_'' \<or> (\<exists>t. P time_layout s = Inr t)) \<and> (e = ''_'' \<or> (\<exists>t. P time_layout e = Inr t)) \<longrightarrow>
      TimeMatch P now s e =
        Inr ((s \<noteq> ''_'' \<longrightarrow> (\<forall>t. P time_layout s = Inr t \<longrightarrow> t < now)) \<and>
             (e \<noteq> ''_'' \<longrightarrow> (\<forall>t. P time_layout e = Inr t \<longrightarrow> now < t)))) \<and>
   (s \<noteq> ''_'' \<and> P time_layout s = Inl err \<longrightarrow> TimeMatch P now s e = Inl err) \<and>
   (e \<noteq> ''_'' \<and> P time_layout e = Inl err \<and>
      (s = ''_'' \<or> (\<exists>t. P time_layout s = Inr t \<and> t < now)) \<longrightarrow>
      TimeMatch P now s e = Inl err) \<and>
   (s \<noteq> ''_'' \<and> P time_layout s = Inr t0 \<and> \<not> t0 < now \<longrightarrow> TimeMatch P now s e = Inr False)"
  by (auto simp: TimeMatch_def TimeMatch_end_cases split: sum.splits)

theorem TimeMatch_open_interval_witness:
  "TimeMatch parse_table 1704100000000000000 ''2024-01-01 00:00:00'' ''2024-01-02 00:00:00''
     = Inr True \<and>
   TimeMatch parse_table 1704153600000000000 ''2024-01-01 00:00:00'' ''2024-01-02 00:00:00''
     = Inr False \<and>
   TimeMatch parse_table 1704100000000000000 ''yesterday'' ''_''
     = Inl ''parsing time: cannot parse'' \<and>
   TimeMatch parse_table 1704100000000000000 ''_'' ''tomorrow''
     = Inl ''parsing time: cannot parse'' \<and>
   TimeMatch parse_table 1704067200000000000 ''2024-01-01 00:00:00'' ''tomorrow'' = Inr False"
proof -
  have p1: "parse_table time_layout ''2024-01-01 00:00:00'' = Inr 1704067200000000000"
    and p2: "parse_table time_layout ''2024-01-02 00:00:00'' = Inr 1704153600000000000"
    and p3: "parse_table time_layout ''yesterday'' = Inl ''parsing time: cannot parse''"
    and p4: "parse_table time_layout ''tomorrow'' = Inl ''parsing time: cannot parse''"
    by (simp_all add: parse_table_def)
  show ?thesis
    using TimeMatch_open_interval [of "''2024-01-01 00:00:00''" parse_table
            "''2024-01-02 00:00:00''" 1704100000000000000 "''''" 0]
          TimeMatch_open_interval [of "''2024-01-01 00:00:00''" parse_table
            "''2024-01-02 00:00:00''" 1704153600000000000 "''''" 0]
          TimeMatch_open_interval [of "''yesterday''" parse_table "''_''"
            1704100000000000000 "''parsing time: cannot parse''" 0]
          TimeMatch_open_interval [of "''_''" parse_table "''tomorrow''"
            1704100000000000000 "''parsing time: cannot parse''" 0]
          TimeMatch_open_interval [of "''2024-01-01 00:00:00''" parse_table "''tomorrow''"
            1704067200000000000 "''''" 1704067200000000000]
    by (simp add: p1 p2 p3 p4)
qed

section \<open>The g functions\<close>

lemma GFunction_error_nil:
  "GenerateGFunction rm memorized args = Some ((v, err), memorized') \<Longrightarrow> err = None"
  by (auto simp: GenerateGFunction_def Let_def split: option.splits list.splits)

lemma GFunction_miss:
  assumes "as_strings args = Some (name1 # name2 # rest)"
    and "memorized (cache_key (name1 # name2 # rest)) = None"
  shows "GenerateGFunction rm memorized args =
           Some (((case rm of
                     None \<Rightarrow> name1 = name2
                   | Some hasLink \<Rightarrow>
                       if rest = [] then fst (hasLink name1 name2 [])
                       else fst (hasLink name1 name2 [hd rest])), None),
                 memorized(cache_key (name1 # name2 # rest) \<mapsto>
                   (case rm of
                     None \<Rightarrow> name1 = name2
                   | Some hasLink \<Rightarrow>
                       if rest = [] then fst (hasLink name1 name2 [])
                       else fst (hasLink name1 name2 [hd rest]))))"
  using assms by (simp add: GenerateGFunction_def Let_def split: option.splits)

lemma GFunction_hit:
  assumes "as_strings args = Some strs" and "memorized (cache_key strs) = Some v"
  shows "GenerateGFunction rm memorized args = Some ((v, None), memorized)"
  using assms by (simp add: GenerateGFunction_def Let_def)

lemma ConditionalGFunction_error_nil:
  "GenerateConditionalGFunction crm args = Some (v, err) \<Longrightarrow> err = None"
  by (auto simp: GenerateConditionalGFunction_def split: option.splits list.splits arg.splits if_splits)

lemma ConditionalGFunction_nil:
  "GenerateConditionalGFunction None (Str name1 # Str name2 # rest) = Some (name1 = name2, None)"
  by (simp add: GenerateConditionalGFunction_def)

text \<open>
  Claim C9 holds for \<open>GenerateConditionalGFunction\<close>, and for \<open>GenerateGFunction\<close> on every
  call that misses the cache (the lemmas above). It fails on a cache hit: the key writes a
  zero byte before each argument, so argument lists whose strings contain zero bytes can
  share a key. With a nil role manager, \<open>g("x", "x", "d")\<close> stores \<open>true\<close> under the key
  \<open>NUL x NUL x NUL d\<close>; the later call \<open>g("x", "x" + NUL + "d")\<close> builds the same key and returns the
  stored \<open>true\<close>, although its two names differ.
\<close>

theorem GFunction_cache_key_collision:
  "cache_key [''x'', ''x'', ''d''] = cache_key [''x'', ''x'' @ [CHR 0x00] @ ''d''] \<and>
   GenerateGFunction None Map.empty [Str ''x'', Str ''x'', Str ''d'']
     = Some ((True, None), [cache_key [''x'', ''x'', ''d''] \<mapsto> True]) \<and>
   GenerateGFunction None [cache_key [''x'', ''x'', ''d''] \<mapsto> True]
       [Str ''x'', Str (''x'' @ [CHR 0x00] @ ''d'')]
     = Some ((True, None), [cache_key [''x'', ''x'', ''d''] \<mapsto> True]) \<and>
   ''x'' \<noteq> ''x'' @ [CHR 0x00] @ ''d''"
  by (simp add: GenerateGFunction_def cache_key_def)

section \<open>Role links: arity errors and truncation\<close>

lemma strings_Count_Nil: "strings_Count [] [c] = 0"
  by (simp add: strings_Count.simps [of "[]"])

lemma strings_Count_Cons:
  "strings_Count (x # s) [c] = (if x = c then Suc (strings_Count s [c]) else strings_Count s [c])"
  by (simp add: strings_Count.simps [of "x # s" "[c]"])

lemma strings_Count_char: "strings_Count s [c] = length (filter (\<lambda>x. x = c) s)"
  by (induction s) (simp_all add: strings_Count_Nil strings_Count_Cons)

lemma cut_rule:
  assumes "count \<le> length (r :: string list)"
  shows "(if length r > count then take count r else r) = take count r"
  using assms by simp

lemma buildRoleLinks_loop_for_rules:
  assumes "2 \<le> count"
  shows "buildRoleLinks_loop rmi count rules rm = for_rules count (plain_link rmi count) rules rm"
proof (induction rules arbitrary: rm)
  case Nil
  show ?case by simp
next
  case (Cons r rules)
  show ?case
  proof (cases "length r < count")
    case True
    then show ?thesis by simp
  next
    case False
    then have len: "count \<le> length r" by simp
    have nth: "take count r ! 0 = r ! 0" "take count r ! 1 = r ! 1"
      using assms by simp_all
    show ?thesis
      using False Cons.IH
      by (simp only: buildRoleLinks_loop.simps for_rules.simps cut_rule [OF len] Let_def
            plain_link_def nth if_False split: prod.splits option.splits) 
  qed
qed

lemma buildIncrementalRoleLinks_loop_for_rules:
  assumes "2 \<le> count"
  shows "buildIncrementalRoleLinks_loop rmi count op rules rm =
         for_rules count (incremental_link rmi count op) rules rm"
proof (induction rules arbitrary: rm)
  case Nil
  show ?case by simp
next
  case (Cons r rules)
  show ?case
  proof (cases "length r < count")
    case True
    then show ?thesis by simp
  next
    case False
    then have len: "count \<le> length r" by simp
    have nth: "take count r ! 0 = r ! 0" "take count r ! 1 = r ! 1"
      using assms by simp_all
    show ?thesis
    proof (cases op)
      case PolicyAdd
      then show ?thesis
        using False Cons.IH
        by (simp only: buildIncrementalRoleLinks_loop.simps for_rules.simps cut_rule [OF len]
              Let_def incremental_link_def nth if_False PolicyOp.case
              split: prod.splits option.splits)
    next
      case PolicyRemove
      then show ?thesis
        using False Cons.IH
        by (simp only: buildIncrementalRoleLinks_loop.simps for_rules.simps cut_rule [OF len]
              Let_def incremental_link_def nth if_False PolicyOp.case
              split: prod.splits option.splits)
    next
      case PolicyOpOther
      then show ?thesis
        using False Cons.IH
        by (simp add: incremental_link_def)
    qed
  qed
qed

lemma for_rules_short:
  "\<exists>r \<in> set rules. length r < count \<Longrightarrow> snd (for_rules count link rules rm) \<noteq> None"
  by (induction rules arbitrary: rm) (auto split: prod.splits option.splits)

lemma for_rules_map_take:
  assumes "\<And>r rm. count \<le> length r \<Longrightarrow> link (take count r) rm = link r rm"
  shows "for_rules count link (map (take count) rules) rm = for_rules count link rules rm"
proof (induction rules arbitrary: rm)
  case Nil
  show ?case by simp
next
  case (Cons r rules)
  show ?case
  proof (cases "length r < count")
    case True
    then show ?thesis by simp
  next
    case False
    then have "link (take count r) rm = link r rm" using assms by simp
    with False Cons.IH show ?thesis
      by (simp split: prod.splits option.splits)
  qed
qed

lemma plain_link_take:
  "2 \<le> count \<Longrightarrow> plain_link rmi count (take count r) rm = plain_link rmi count r rm"
  by (simp add: plain_link_def)

lemma incremental_link_take:
  "2 \<le> count \<Longrightarrow>
   incremental_link rmi count op (take count r) rm = incremental_link rmi count op r rm"
  by (simp add: incremental_link_def split: PolicyOp.splits)

text \<open>
  Claim C1. With \<open>count\<close> the number of \<open>_\<close> in the assertion's value, \<open>buildRoleLinks\<close> and
  \<open>buildIncrementalRoleLinks\<close> return an error when \<open>count < 2\<close> (the role manager is then
  untouched) and when a rule has fewer than \<open>count\<close> fields; and a rule with more than
  \<open>count\<close> fields is used through its first \<open>count\<close> fields only: the build is the same on
  the rules cut to \<open>count\<close> fields, and each link is made from fields 0 and 1 and the
  fields from 2 up to \<open>count\<close>.
\<close>

theorem role_links_arity:
  "(strings_Count (Value ast) ''_'' < 2 \<longrightarrow>
      buildRoleLinks rmi ast rm = (rm, Some ErrRoleDefinitionCount) \<and>
      buildIncrementalRoleLinks rmi ast rm op rules = (rm, Some ErrRoleDefinitionCount)) \<and>
   ((\<exists>r \<in> set (Policy ast). length r < strings_Count (Value ast) ''_'') \<longrightarrow>
      snd (buildRoleLinks rmi ast rm) \<noteq> None) \<and>
   ((\<exists>r \<in> set rules. length r < strings_Count (Value ast) ''_'') \<longrightarrow>
      snd (buildIncrementalRoleLinks rmi ast rm op rules) \<noteq> None) \<and>
   buildRoleLinks rmi ast rm =
     buildRoleLinks rmi
       (ast\<lparr>Policy := map (take (strings_Count (Value ast) ''_'')) (Policy ast)\<rparr>) rm \<and>
   buildIncrementalRoleLinks rmi ast rm op rules =
     buildIncrementalRoleLinks rmi ast rm op (map (take (strings_Count (Value ast) ''_'')) rules) \<and>
   (2 \<le> strings_Count (Value ast) ''_'' \<longrightarrow>
      buildRoleLinks rmi ast rm =
        for_rules (strings_Count (Value ast) ''_'')
          (plain_link rmi (strings_Count (Value ast) ''_'')) (Policy ast) rm \<and>
      buildIncrementalRoleLinks rmi ast rm op rules =
        for_rules (strings_Count (Value ast) ''_'')
          (incremental_link rmi (strings_Count (Value ast) ''_'') op) rules rm)"
proof (cases "strings_Count (Value ast) ''_'' < 2")
  case True
  then show ?thesis
    by (simp add: buildRoleLinks_def buildIncrementalRoleLinks_def)
next
  case False
  define count where "count = strings_Count (Value ast) ''_''"
  have c2: "2 \<le> count" using False by (simp add: count_def)
  have b: "buildRoleLinks rmi a rm = for_rules count (plain_link rmi count) (Policy a) rm"
    if "Value a = Value ast" for a
    using that c2
    by (simp add: buildRoleLinks_def count_def [symmetric] buildRoleLinks_loop_for_rules)
  have i: "buildIncrementalRoleLinks rmi ast rm op rs =
           for_rules count (incremental_link rmi count op) rs rm" for rs
    using c2
    by (simp add: buildIncrementalRoleLinks_def count_def [symmetric]
          buildIncrementalRoleLinks_loop_for_rules)
  have short1: "(\<exists>r \<in> set (Policy ast). length r < count) \<longrightarrow>
                snd (buildRoleLinks rmi ast rm) \<noteq> None"
  proof
    assume "\<exists>r \<in> set (Policy ast). length r < count"
    then have "snd (for_rules count (plain_link rmi count) (Policy ast) rm) \<noteq> None"
      by (rule for_rules_short)
    then show "snd (buildRoleLinks rmi ast rm) \<noteq> None" by (simp add: b)
  qed
  have short2: "(\<exists>r \<in> set rules. length r < count) \<longrightarrow>
                snd (buildIncrementalRoleLinks rmi ast rm op rules) \<noteq> None"
  proof
    assume "\<exists>r \<in> set rules. length r < count"
    then have "snd (for_rules count (incremental_link rmi count op) rules rm) \<noteq> None"
      by (rule for_rules_short)
    then show "snd (buildIncrementalRoleLinks rmi ast rm op rules) \<noteq> None" by (simp add: i)
  qed
  have cut1: "buildRoleLinks rmi ast rm =
              buildRoleLinks rmi (ast\<lparr>Policy := map (take count) (Policy ast)\<rparr>) rm"
    using c2 by (simp add: b for_rules_map_take plain_link_take)
  have cut2: "buildIncrementalRoleLinks rmi ast rm op rules =
              buildIncrementalRoleLinks rmi ast rm op (map (take count) rules)"
    using c2 by (simp add: i for_rules_map_take incremental_link_take)
  show ?thesis
    using False short1 short2 cut1 cut2 b [OF refl] i [of rules]
    unfolding count_def by blast
qed

theorem role_links_arity_witness:
  "strings_Count (Value g_domain) ''_'' = 3 \<and>
   [''bob'', ''admin''] \<in> set (Policy g_domain) \<and>
   buildRoleLinks recorder g_domain [] =
     ([AddLink_call ''alice'' ''admin'' [''dom1'']], Some ErrGroupingPolicy) \<and>
   buildRoleLinks recorder g_domain [] =
     buildRoleLinks recorder
       (g_domain\<lparr>Policy := [[''alice'', ''admin'', ''dom1''], [''bob'', ''admin'']]\<rparr>) [] \<and>
   buildIncrementalRoleLinks recorder g_domain [] PolicyRemove
       [[''alice'', ''admin'', ''dom1'', ''extra'']] =
     ([DeleteLink_call ''alice'' ''admin'' [''dom1'']], None) \<and>
   snd (buildIncrementalRoleLinks recorder g_domain [] PolicyAdd [[''bob'', ''admin'']]) \<noteq> None \<and>
   strings_Count ''_'' ''_'' = 1 \<and>
   buildRoleLinks recorder (g_domain\<lparr>Value := ''_''\<rparr>) [] = ([], Some ErrRoleDefinitionCount) \<and>
   buildIncrementalRoleLinks recorder (g_domain\<lparr>Value := ''_''\<rparr>) [] PolicyAdd [] =
     ([], Some ErrRoleDefinitionCount)"
proof -
  have c3: "strings_Count (Value g_domain) ''_'' = 3"
    by (simp add: g_domain_def strings_Count_char)
  have c1: "strings_Count ''_'' ''_'' = 1"
    by (simp add: strings_Count_char)
  have pol: "Policy g_domain = [[''alice'', ''admin'', ''dom1'', ''extra''], [''bob'', ''admin'']]"
    by (simp add: g_domain_def)
  have a: "for_rules 3 (plain_link recorder 3) (Policy g_domain) [] =
           ([AddLink_call ''alice'' ''admin'' [''dom1'']], Some ErrGroupingPolicy)"
    by (simp add: pol plain_link_def recorder_def)
  have b: "for_rules 3 (incremental_link recorder 3 PolicyRemove)
             [[''alice'', ''admin'', ''dom1'', ''extra'']] [] =
           ([DeleteLink_call ''alice'' ''admin'' [''dom1'']], None)"
    by (simp add: incremental_link_def recorder_def)
  note t1 = role_links_arity [of g_domain recorder "[]" PolicyRemove
              "[[''alice'', ''admin'', ''dom1'', ''extra'']]", unfolded c3]
  note t2 = role_links_arity [of g_domain recorder "[]" PolicyAdd "[[''bob'', ''admin'']]",
              unfolded c3]
  note t3 = role_links_arity [of "g_domain\<lparr>Value := ''_''\<rparr>" recorder "[]" PolicyAdd "[]"]
  have le: "2 \<le> (3::nat)" by simp
  from t1 le have r1: "buildRoleLinks recorder g_domain [] =
                    for_rules 3 (plain_link recorder 3) (Policy g_domain) []"
    by blast
  from t1 le have r2: "buildIncrementalRoleLinks recorder g_domain [] PolicyRemove
               [[''alice'', ''admin'', ''dom1'', ''extra'']] =
             for_rules 3 (incremental_link recorder 3 PolicyRemove)
               [[''alice'', ''admin'', ''dom1'', ''extra'']] []"
    by blast
  from t1 have r3: "buildRoleLinks recorder g_domain [] =
             buildRoleLinks recorder (g_domain\<lparr>Policy := map (take 3) (Policy g_domain)\<rparr>) []"
    by blast
  have short: "\<exists>r \<in> set [[''bob'', ''admin'']]. length r < 3" by simp
  from t2 short have r4:
    "snd (buildIncrementalRoleLinks recorder g_domain [] PolicyAdd [[''bob'', ''admin'']]) \<noteq> None"
    by blast
  have few: "strings_Count (Value (g_domain\<lparr>Value := ''_''\<rparr>)) ''_'' < 2"
    by (simp add: c1)
  from t3 few have r5:
    "buildRoleLinks recorder (g_domain\<lparr>Value := ''_''\<rparr>) [] = ([], Some ErrRoleDefinitionCount)"
    by blast
  from t3 few have r6:
    "buildIncrementalRoleLinks recorder (g_domain\<lparr>Value := ''_''\<rparr>) [] PolicyAdd [] =
             ([], Some ErrRoleDefinitionCount)"
    by blast
  have r3': "buildRoleLinks recorder g_domain [] =
     buildRoleLinks recorder
       (g_domain\<lparr>Policy := [[''alice'', ''admin'', ''dom1''], [''bob'', ''admin'']]\<rparr>) []"
    using r3 by (simp add: pol)
  show ?thesis
    using c3 c1 r1 [unfolded a] r2 [unfolded b] r3' r4 r5 r6 by (simp add: pol)
qed

section \<open>Conditional role links\<close>

lemma addConditionalRoleLink_cut:
  assumes "2 \<le> n" and "n \<le> count" and "count \<le> length r" and "length (Tokens ast) = n"
  shows "addConditionalRoleLink crm ast (r, count) (drop 2 r, n - 2) rm =
         Some (conditional_link crm n count r rm)"
proof -
  have nth: "take count r ! 0 = r ! 0" "take count r ! 1 = r ! 1"
    using assms by simp_all
  have params: "take (count - n) (drop n r) = drop n (take count r)"
    by (simp add: drop_take)
  have empty: "drop 2 (take n (take count r)) = [] \<longleftrightarrow> n = 2"
    using assms by auto
  show ?thesis
  proof (cases "n = 2")
    case True
    then show ?thesis
      using assms nth params
      by (simp add: addConditionalRoleLink_def conditional_link_def slen_def index_def
            reslice_from_def reslice_def elems_def Let_def split: prod.splits option.splits)
  next
    case False
    then have n3: "2 < n" using assms by simp
    have nth2: "take count r ! 2 = r ! 2" using n3 assms by simp
    have ne: "drop 2 (take n (take count r)) \<noteq> []" using empty False by simp
    show ?thesis
      using assms nth nth2 params n3 ne
      by (simp add: addConditionalRoleLink_def conditional_link_def slen_def index_def
            reslice_from_def reslice_def elems_def Let_def split: prod.splits option.splits)
  qed
qed

lemma buildConditionalRoleLinks_loop_for_rules:
  assumes "2 \<le> n" and "n \<le> count" and "length (Tokens ast) = n"
  shows "buildConditionalRoleLinks_loop crm ast count rules rm =
         Some (for_rules count (conditional_link crm n count) rules rm)"
proof (induction rules arbitrary: rm)
  case Nil
  show ?case by simp
next
  case (Cons r rules)
  show ?case
  proof (cases "length r < count")
    case True
    then show ?thesis by simp
  next
    case False
    then have len: "count \<le> length r" by simp
    have rule: "(if length r > count then reslice (slice_of r) 0 count else Some (slice_of r))
                = Some (r, count)"
      using len by (auto simp: reslice_def slice_of_def)
    have dom: "reslice (r, count) 2 (length (Tokens ast)) = Some (drop 2 r, n - 2)"
      using assms len by (simp add: reslice_def)
    have step: "addConditionalRoleLink crm ast (r, count) (drop 2 r, n - 2) rm =
                Some (conditional_link crm n count r rm)"
      by (rule addConditionalRoleLink_cut [OF assms(1,2) len assms(3)])
    show ?thesis
      using False Cons.IH
      by (simp only: buildConditionalRoleLinks_loop.simps for_rules.simps rule dom step
            if_False option.case split: prod.splits option.splits) simp
  qed
qed

lemma plain_link_recorder_log:
  "fst (for_rules count (plain_link recorder count) rules log) =
     log @ map (\<lambda>r. AddLink_call (r ! 0) (r ! 1) (drop 2 (take count r)))
             (takeWhile (\<lambda>r. count \<le> length r) rules)"
  by (induction rules arbitrary: log) (simp_all add: plain_link_def recorder_def)

lemma buildRoleLinks_recorder_log:
  "fst (buildRoleLinks recorder ast log) =
     log @ (if strings_Count (Value ast) ''_'' < 2 then []
            else map (\<lambda>r. AddLink_call (r ! 0) (r ! 1)
                        (drop 2 (take (strings_Count (Value ast) ''_'') r)))
                   (takeWhile (\<lambda>r. strings_Count (Value ast) ''_'' \<le> length r) (Policy ast)))"
  by (simp add: buildRoleLinks_def Let_def buildRoleLinks_loop_for_rules plain_link_recorder_log)

text \<open>
  Claim C2, as stated, fails on a rule that is longer than the number of \<open>_\<close> in the
  assertion's value. For \<open>g = _, _, (_, _)\<close> (two tokens, four \<open>_\<close>) and the rule
  \<open>alice, admin, t1, t2, extra\<close>, the fields from position \<open>len(Tokens)\<close> onward are
  \<open>t1, t2, extra\<close>, but the rule is cut to four fields before it is sliced, and the
  parameters passed are \<open>t1, t2\<close>.
\<close>

theorem conditional_params_counterexample:
  "length (Tokens g_conditional) = 2 \<and>
   Policy g_conditional = [[''alice'', ''admin'', ''t1'', ''t2'', ''extra'']] \<and>
   drop (length (Tokens g_conditional)) [''alice'', ''admin'', ''t1'', ''t2'', ''extra'']
     = [''t1'', ''t2'', ''extra''] \<and>
   buildConditionalRoleLinks recorder g_conditional [] =
     Some ([AddLink_call ''alice'' ''admin'' [],
            SetLinkConditionFuncParams_call ''alice'' ''admin'' [''t1'', ''t2'']], None)"
  by (simp add: g_conditional_def buildConditionalRoleLinks_def strings_Count_char
        addConditionalRoleLink_def reslice_def reslice_from_def slice_of_def slen_def
        index_def elems_def recorder_def)

text \<open>
  Claim C2, amended. Let \<open>count\<close> be the number of \<open>_\<close> in the value of a conditional
  \<open>g\<close>-assertion whose number of tokens lies between 2 and \<open>count\<close>. Building its role
  links goes through the rules in order and, for each rule, cut to its first \<open>count\<close>
  fields, adds an edge from \<open>rule[0]\<close> to \<open>rule[1]\<close>, qualified by the domain \<open>rule[2]\<close>
  exactly when \<open>rule[2:len(Tokens)]\<close> is not empty, and then passes exactly the fields
  from position \<open>len(Tokens)\<close> up to \<open>count\<close> as the parameters of the link condition
  (\<open>SetLinkConditionFuncParams\<close> without a domain, \<open>SetDomainLinkConditionFuncParams\<close> with
  one); a rule of fewer than \<open>count\<close> fields, or an error of \<open>AddLink\<close>, ends the build with
  that error. Through \<open>buildRoleLinks\<close> a role manager receives \<open>AddLink\<close> calls only, each
  on the first \<open>count\<close> fields of a rule.
\<close>

theorem conditional_role_links:
  "(2 \<le> length (Tokens ast) \<and> length (Tokens ast) \<le> strings_Count (Value ast) ''_'' \<longrightarrow>
      buildConditionalRoleLinks crm ast rm =
        Some (for_rules (strings_Count (Value ast) ''_'')
                (conditional_link crm (length (Tokens ast)) (strings_Count (Value ast) ''_''))
                (Policy ast) rm)) \<and>
   fst (buildRoleLinks recorder ast log) =
     log @ (if strings_Count (Value ast) ''_'' < 2 then []
            else map (\<lambda>r. AddLink_call (r ! 0) (r ! 1)
                        (drop 2 (take (strings_Count (Value ast) ''_'') r)))
                   (takeWhile (\<lambda>r. strings_Count (Value ast) ''_'' \<le> length r) (Policy ast)))"
proof (intro conjI impI)
  assume a: "2 \<le> length (Tokens ast) \<and> length (Tokens ast) \<le> strings_Count (Value ast) ''_''"
  then have "\<not> strings_Count (Value ast) ''_'' < 2" by simp
  then show "buildConditionalRoleLinks crm ast rm =
        Some (for_rules (strings_Count (Value ast) ''_'')
                (conditional_link crm (length (Tokens ast)) (strings_Count (Value ast) ''_''))
                (Policy ast) rm)"
    using a by (simp add: buildConditionalRoleLinks_def buildConditionalRoleLinks_loop_for_rules)
next
  show "fst (buildRoleLinks recorder ast log) =
     log @ (if strings_Count (Value ast) ''_'' < 2 then []
            else map (\<lambda>r. AddLink_call (r ! 0) (r ! 1)
                        (drop 2 (take (strings_Count (Value ast) ''_'') r)))
                   (takeWhile (\<lambda>r. strings_Count (Value ast) ''_'' \<le> length r) (Policy ast)))"
    by (rule buildRoleLinks_recorder_log)
qed

theorem conditional_role_links_witness:
  "length (Tokens g_conditional) = 2 \<and> strings_Count (Value g_conditional) ''_'' = 4 \<and>
   buildConditionalRoleLinks recorder g_conditional [] =
     Some ([AddLink_call ''alice'' ''admin'' [],
            SetLinkConditionFuncParams_call ''alice'' ''admin'' [''t1'', ''t2'']], None) \<and>
   length (Tokens g_domain) = 3 \<and> strings_Count (Value g_domain) ''_'' = 3 \<and>
   buildConditionalRoleLinks recorder g_domain [] =
     Some ([AddLink_call ''alice'' ''admin'' [''dom1''],
            SetDomainLinkConditionFuncParams_call ''alice'' ''admin'' ''dom1'' []],
           Some ErrGroupingPolicy) \<and>
   fst (buildRoleLinks recorder g_domain []) = [AddLink_call ''alice'' ''admin'' [''dom1'']]"
proof -
  have n1: "length (Tokens g_conditional) = 2" and c1: "strings_Count (Value g_conditional) ''_'' = 4"
    by (simp_all add: g_conditional_def strings_Count_char)
  have n2: "length (Tokens g_domain) = 3" and c2: "strings_Count (Value g_domain) ''_'' = 3"
    by (simp_all add: g_domain_def strings_Count_char)
  have h1: "2 \<le> length (Tokens g_conditional) \<and>
            length (Tokens g_conditional) \<le> strings_Count (Value g_conditional) ''_''"
    by (simp add: n1 c1)
  have h2: "2 \<le> length (Tokens g_domain) \<and>
            length (Tokens g_domain) \<le> strings_Count (Value g_domain) ''_''"
    by (simp add: n2 c2)
  have e1: "for_rules 4 (conditional_link recorder 2 4) (Policy g_conditional) [] =
            ([AddLink_call ''alice'' ''admin'' [],
              SetLinkConditionFuncParams_call ''alice'' ''admin'' [''t1'', ''t2'']], None)"
    by (simp add: g_conditional_def conditional_link_def recorder_def)
  have e2: "for_rules 3 (conditional_link recorder 3 3) (Policy g_domain) [] =
            ([AddLink_call ''alice'' ''admin'' [''dom1''],
              SetDomainLinkConditionFuncParams_call ''alice'' ''admin'' ''dom1'' []],
             Some ErrGroupingPolicy)"
    by (simp add: g_domain_def conditional_link_def recorder_def)
  have e3: "takeWhile (\<lambda>r. 3 \<le> length r) (Policy g_domain) =
            [[''alice'', ''admin'', ''dom1'', ''extra'']]"
    by (simp add: g_domain_def)
  from conditional_role_links [of g_conditional recorder "[]" "[]"] h1
  have r1: "buildConditionalRoleLinks recorder g_conditional [] =
            Some (for_rules 4 (conditional_link recorder 2 4) (Policy g_conditional) [])"
    unfolding n1 c1 by blast
  from conditional_role_links [of g_domain recorder "[]" "[]"] h2
  have r2: "buildConditionalRoleLinks recorder g_domain [] =
            Some (for_rules 3 (conditional_link recorder 3 3) (Policy g_domain) [])"
    and r3: "fst (buildRoleLinks recorder g_domain []) =
             [] @ (if (3::nat) < 2 then []
                   else map (\<lambda>r. AddLink_call (r ! 0) (r ! 1) (drop 2 (take 3 r)))
                          (takeWhile (\<lambda>r. 3 \<le> length r) (Policy g_domain)))"
    unfolding n2 c2 by blast+
  show ?thesis
    using n1 c1 n2 c2 r1 [unfolded e1] r2 [unfolded e2] r3 [unfolded e3] by simp
qed

section \<open>Loading a policy line\<close>



lemma GetAssertion_basic_p: "GetAssertion basic_model ''p'' ''p'' = Inr p_bob"
  by (simp add: GetAssertion_def basic_model_def)


section \<open>Adding a rule twice\<close>

lemma indexed_has_rule:
  assumes "indexed ast" and "rule \<in> set (Policy ast)"
  shows "has_rule ast rule"
proof -
  from assms(2) obtain i where i: "i < length (Policy ast)" "Policy ast ! i = rule"
    by (auto simp: in_set_conv_nth)
  then have "(i, rule) \<in> set (enumerate 0 (Policy ast))"
    by (simp add: in_set_enumerate_eq)
  with assms(1) have "PolicyMap ast (canonical rule) = Some (int i)"
    by (auto simp: indexed_def list_all_iff)
  then show ?thesis by (simp add: has_rule_def)
qed

lemma GetAssertion_SetAssertion:
  "GetAssertion (SetAssertion m sec key ast) sec key = Inr ast"
  by (simp add: GetAssertion_def SetAssertion_def)

lemma has_rule_append_rule: "has_rule (append_rule ast rule) rule"
  by (simp add: has_rule_def append_rule_def)

lemma LoadPolicyArray_twice:
  assumes "LoadPolicyArray spec_store tokens m = Some (m1, e1)"
  shows "LoadPolicyArray spec_store tokens m1 = Some (m1, e1)"
proof (cases tokens)
  case Nil
  with assms show ?thesis by (simp add: LoadPolicyArray_def)
next
  case (Cons key rest)
  show ?thesis
  proof (cases "length key < 1")
    case True
    with assms Cons show ?thesis by (simp add: LoadPolicyArray_def)
  next
    case False
    show ?thesis
    proof (cases "GetAssertion m (take 1 key) key")
      case (Inl err)
      with assms Cons False have "m1 = m" "e1 = Some err"
        by (simp_all add: LoadPolicyArray_def spec_store_def Model_HasPolicyEx_def)
      with assms show ?thesis by simp
    next
      case (Inr ast)
      show ?thesis
      proof (cases "has_rule ast rest")
        case True
        with assms Cons False Inr have "m1 = m" "e1 = None"
          by (simp_all add: LoadPolicyArray_def spec_store_def Model_HasPolicyEx_def)
        with assms show ?thesis by simp
      next
        case absent: False
        with assms Cons False Inr
        have m1: "m1 = SetAssertion m (take 1 key) key (append_rule ast rest)" and e1: "e1 = None"
          by (simp_all add: LoadPolicyArray_def spec_store_def Model_HasPolicyEx_def
                Model_AddPolicy_def)
        show ?thesis
          using Cons False
          by (simp add: LoadPolicyArray_def spec_store_def Model_HasPolicyEx_def m1 e1
                GetAssertion_SetAssertion has_rule_append_rule)
      qed
    qed
  qed
qed

text \<open>
  Claim C6. Adding a rule that is already present in the assertion (whose index is in
  step with its policy list) is a no-op: \<open>add_policy\<close> leaves the model, and so the
  assertion's policy list and index, unchanged and reports \<open>(false, nil)\<close>. Consequently
  loading the same rule line a second time gives the model state, and the result, of
  loading it once.
\<close>

theorem add_policy_duplicate:
  "(GetAssertion m sec key = Inr ast \<and> indexed ast \<and> rule \<in> set (Policy ast) \<longrightarrow>
      add_policy m sec key rule = (m, False, None)) \<and>
   (LoadPolicyLine csv_Read spec_store line m = Some (m1, e1) \<longrightarrow>
      LoadPolicyLine csv_Read spec_store line m1 = Some (m1, e1))"
proof (intro conjI impI)
  assume "GetAssertion m sec key = Inr ast \<and> indexed ast \<and> rule \<in> set (Policy ast)"
  then show "add_policy m sec key rule = (m, False, None)"
    by (simp add: add_policy_def indexed_has_rule)
next
  assume a: "LoadPolicyLine csv_Read spec_store line m = Some (m1, e1)"
  show "LoadPolicyLine csv_Read spec_store line m1 = Some (m1, e1)"
  proof (cases "line = '''' \<or> prefix ''#'' line")
    case True
    with a show ?thesis by (auto simp: LoadPolicyLine_def)
  next
    case False
    show ?thesis
    proof (cases "csv_Read policy_csv line")
      case (Inl err)
      with a False show ?thesis by (auto simp: LoadPolicyLine_def)
    next
      case (Inr tokens)
      with a False have "LoadPolicyArray spec_store tokens m = Some (m1, e1)"
        by (auto simp: LoadPolicyLine_def)
      then have "LoadPolicyArray spec_store tokens m1 = Some (m1, e1)"
        by (rule LoadPolicyArray_twice)
      with False Inr show ?thesis by (auto simp: LoadPolicyLine_def)
    qed
  qed
qed

theorem add_policy_duplicate_witness:
  "GetAssertion basic_model ''p'' ''p'' = Inr p_bob \<and> indexed p_bob \<and>
   [''bob'', ''data2'', ''write''] \<in> set (Policy p_bob) \<and>
   add_policy basic_model ''p'' ''p'' [''bob'', ''data2'', ''write''] = (basic_model, False, None) \<and>
   LoadPolicyLine csv_table spec_store ''p, alice, data1, read'' basic_model =
     Some (SetAssertion basic_model ''p'' ''p''
             (append_rule p_bob [''alice'', ''data1'', ''read'']), None) \<and>
   LoadPolicyLine csv_table spec_store ''p, alice, data1, read''
       (SetAssertion basic_model ''p'' ''p'' (append_rule p_bob [''alice'', ''data1'', ''read''])) =
     Some (SetAssertion basic_model ''p'' ''p''
             (append_rule p_bob [''alice'', ''data1'', ''read'']), None)"
proof -
  have ix: "indexed p_bob"
    by (simp add: indexed_def p_bob_def canonical_def)
  have mem: "[''bob'', ''data2'', ''write''] \<in> set (Policy p_bob)"
    by (simp add: p_bob_def)
  have absent: "\<not> has_rule p_bob [''alice'', ''data1'', ''read'']"
    by (simp add: has_rule_def canonical_def p_bob_def)
  have first: "LoadPolicyLine csv_table spec_store ''p, alice, data1, read'' basic_model =
     Some (SetAssertion basic_model ''p'' ''p''
             (append_rule p_bob [''alice'', ''data1'', ''read'']), None)"
    using absent
    by (simp add: LoadPolicyLine_def LoadPolicyArray_def Let_def csv_table_def spec_store_def
          Model_HasPolicyEx_def Model_AddPolicy_def GetAssertion_basic_p)
  note t = add_policy_duplicate [of basic_model "''p''" "''p''" p_bob
             "[''bob'', ''data2'', ''write'']" csv_table "''p, alice, data1, read''"
             "SetAssertion basic_model ''p'' ''p'' (append_rule p_bob [''alice'', ''data1'', ''read''])"
             None]
  from t GetAssertion_basic_p ix mem
  have c1: "add_policy basic_model ''p'' ''p'' [''bob'', ''data2'', ''write'']
            = (basic_model, False, None)"
    by blast
  from t first
  have c2: "LoadPolicyLine csv_table spec_store ''p, alice, data1, read''
       (SetAssertion basic_model ''p'' ''p'' (append_rule p_bob [''alice'', ''data1'', ''read''])) =
     Some (SetAssertion basic_model ''p'' ''p''
             (append_rule p_bob [''alice'', ''data1'', ''read'']), None)"
    by blast
  show ?thesis
    using GetAssertion_basic_p ix mem c1 first c2 by simp
qed

section \<open>Saving the policy\<close>

lemma write_rules_lines:
  "write_rules k rules tmp = tmp @ concat (map (\<lambda>r. policy_line (k, r)) rules)"
  by (induction rules arbitrary: tmp) (simp_all add: policy_line_def ArrayToString_def)

lemma write_section_lines:
  assumes "set ks \<subseteq> dom am"
  shows "write_section am ks tmp = tmp @ concat (map policy_line (stored_rules am ks))"
  using assms
proof (induction ks arbitrary: tmp)
  case Nil
  show ?case by (simp add: stored_rules_def)
next
  case (Cons k ks)
  from Cons.prems obtain ast where ast: "am k = Some ast" by auto
  have tail: "write_section am ks t = t @ concat (map policy_line (stored_rules am ks))" for t
    using Cons.IH Cons.prems by simp
  have head: "stored_rules am (k # ks) = map (Pair k) (Policy ast) @ stored_rules am ks"
    by (simp add: stored_rules_def ast)
  show ?case
    by (simp add: ast tail head write_rules_lines map_concat comp_def)
qed

lemma length_stored_rules:
  assumes "range_order am ks"
  shows "length (stored_rules am ks) = (\<Sum>k \<in> dom am. length (Policy (the (am k))))"
proof -
  have "length (stored_rules am ks) = sum_list (map (\<lambda>k. length (Policy (the (am k)))) ks)"
    by (simp add: stored_rules_def length_concat comp_def)
  also have "\<dots> = (\<Sum>k \<in> set ks. length (Policy (the (am k))))"
    using assms by (simp add: range_order_def sum_list_distinct_conv_sum_set)
  finally show ?thesis using assms by (simp add: range_order_def)
qed

lemma TrimRight_no_trailing: "\<not> suffix [c] (strings_TrimRight s [c])"
proof
  assume "suffix [c] (strings_TrimRight s [c])"
  then obtain ys where ys: "strings_TrimRight s [c] = ys @ [c]"
    by (auto simp: suffix_def)
  then have "dropWhile (\<lambda>x. x \<in> set [c]) (rev s) = c # rev ys"
    by (simp add: strings_TrimRight_def rev_swap)
  then have "hd (dropWhile (\<lambda>x. x \<in> set [c]) (rev s)) = c"
    and "dropWhile (\<lambda>x. x \<in> set [c]) (rev s) \<noteq> []"
    by simp_all
  then show False
    using hd_dropWhile [of "\<lambda>x. x \<in> set [c]" "rev s"] by simp
qed

text \<open>
  Claim C4. For every model, and every order in which the two \<open>range\<close> loops visit the
  keys of the sections \<open>p\<close> and \<open>g\<close>, \<open>SavePolicy\<close> (on an adapter with a file path) writes
  the lines \<open>key, field1, field2, ...\<close> of the stored rules, one line per rule: first those
  of all assertions of section \<open>p\<close>, then those of all assertions of section \<open>g\<close>, the rules
  of an assertion in stored order; the trailing newline is trimmed, so the text written
  does not end in a newline.
\<close>

theorem SavePolicy_text:
  "filePath a \<noteq> '''' \<and> range_order (section_of model ''p'') p_order \<and>
   range_order (section_of model ''g'') g_order \<longrightarrow>
     SavePolicy a model p_order g_order =
       Inr (strings_TrimRight
              (concat (map policy_line
                 (stored_rules (section_of model ''p'') p_order @
                  stored_rules (section_of model ''g'') g_order))) [CHR 0x0A]) \<and>
     (\<forall>text. SavePolicy a model p_order g_order = Inr text \<longrightarrow> \<not> suffix [CHR 0x0A] text) \<and>
     length (stored_rules (section_of model ''p'') p_order) =
       (\<Sum>k \<in> dom (section_of model ''p''). length (Policy (the (section_of model ''p'' k)))) \<and>
     length (stored_rules (section_of model ''g'') g_order) =
       (\<Sum>k \<in> dom (section_of model ''g''). length (Policy (the (section_of model ''g'' k))))"
proof (intro impI)
  assume a: "filePath a \<noteq> '''' \<and> range_order (section_of model ''p'') p_order \<and>
             range_order (section_of model ''g'') g_order"
  then have p: "set p_order \<subseteq> dom (section_of model ''p'')"
    and g: "set g_order \<subseteq> dom (section_of model ''g'')"
    by (simp_all add: range_order_def)
  have saved: "SavePolicy a model p_order g_order =
       Inr (strings_TrimRight
              (concat (map policy_line
                 (stored_rules (section_of model ''p'') p_order @
                  stored_rules (section_of model ''g'') g_order))) [CHR 0x0A])"
    using a by (simp add: SavePolicy_def Let_def write_section_lines [OF p]
          write_section_lines [OF g])
  have nl: "\<forall>text. SavePolicy a model p_order g_order = Inr text \<longrightarrow> \<not> suffix [CHR 0x0A] text"
    unfolding saved using TrimRight_no_trailing by auto
  show "SavePolicy a model p_order g_order =
       Inr (strings_TrimRight
              (concat (map policy_line
                 (stored_rules (section_of model ''p'') p_order @
                  stored_rules (section_of model ''g'') g_order))) [CHR 0x0A]) \<and>
     (\<forall>text. SavePolicy a model p_order g_order = Inr text \<longrightarrow> \<not> suffix [CHR 0x0A] text) \<and>
     length (stored_rules (section_of model ''p'') p_order) =
       (\<Sum>k \<in> dom (section_of model ''p''). length (Policy (the (section_of model ''p'' k)))) \<and>
     length (stored_rules (section_of model ''g'') g_order) =
       (\<Sum>k \<in> dom (section_of model ''g''). length (Policy (the (section_of model ''g'' k))))"
    using saved nl a by (simp add: length_stored_rules)
qed

theorem SavePolicy_text_witness:
  "filePath \<lparr>filePath = ''policy.csv''\<rparr> \<noteq> '''' \<and>
   range_order (section_of basic_model ''p'') [''p''] \<and>
   range_order (section_of basic_model ''g'') [''g''] \<and>
   SavePolicy \<lparr>filePath = ''policy.csv''\<rparr> basic_model [''p''] [''g''] =
     Inr (''p, bob, data2, write'' @ [CHR 0x0A] @
          ''g, alice, admin, dom1, extra'' @ [CHR 0x0A] @
          ''g, bob, admin'') \<and>
   length (stored_rules (section_of basic_model ''g'') [''g'']) = 2"
proof -
  have sp: "section_of basic_model ''p'' = [''p'' \<mapsto> p_bob]"
    and sg: "section_of basic_model ''g'' = [''g'' \<mapsto> g_domain]"
    by (simp_all add: section_of_def basic_model_def)
  have h: "filePath \<lparr>filePath = ''policy.csv''\<rparr> \<noteq> '''' \<and>
           range_order (section_of basic_model ''p'') [''p''] \<and>
           range_order (section_of basic_model ''g'') [''g'']"
    by (simp add: sp sg range_order_def)
  have rules: "stored_rules (section_of basic_model ''p'') [''p''] @
               stored_rules (section_of basic_model ''g'') [''g''] =
               [(''p'', [''bob'', ''data2'', ''write'']),
                (''g'', [''alice'', ''admin'', ''dom1'', ''extra'']),
                (''g'', [''bob'', ''admin''])]"
    by (simp add: sp sg stored_rules_def p_bob_def g_domain_def)
  have n: "length (stored_rules (section_of basic_model ''g'') [''g'']) = 2"
    by (simp add: sg stored_rules_def g_domain_def)
  from SavePolicy_text [of "\<lparr>filePath = ''policy.csv''\<rparr>" basic_model "[''p'']" "[''g'']"] h
  have "SavePolicy \<lparr>filePath = ''policy.csv''\<rparr> basic_model [''p''] [''g''] =
       Inr (strings_TrimRight
              (concat (map policy_line
                 (stored_rules (section_of basic_model ''p'') [''p''] @
                  stored_rules (section_of basic_model ''g'') [''g'']))) [CHR 0x0A])"
    by blast
  then have "SavePolicy \<lparr>filePath = ''policy.csv''\<rparr> basic_model [''p''] [''g''] =
     Inr (''p, bob, data2, write'' @ [CHR 0x0A] @
          ''g, alice, admin, dom1, extra'' @ [CHR 0x0A] @
          ''g, bob, admin'')"
    by (simp add: rules policy_line_def strings_TrimRight_def)
  with h n show ?thesis by blast
qed

end
